theory Spec2Isabelle
  imports Main
begin

section \<open>Strings of UTF-16 code units\<close>

text \<open>
  A JavaScript string is a sequence of UTF-16 code units. It is modelled as a list of
  natural numbers, one per code unit; \<open>js\<close> turns an ASCII literal into such a list.
\<close>

type_synonym jsstring = "nat list"

definition js :: "string \<Rightarrow> jsstring" where
  "js s = map of_char s"

text \<open>
  The characters matched by the regular expression class \<open>\s\<close> and removed by
  \<open>String.prototype.trim\<close>: WhiteSpace and LineTerminator of ECMAScript (TAB, LF, VT, FF,
  CR, SP, NBSP, the Unicode space separators, LS, PS and the byte order mark).
\<close>

definition isWhiteSpace :: "nat \<Rightarrow> bool" where
  "isWhiteSpace c =
     (c = 9 \<or> c = 10 \<or> c = 11 \<or> c = 12 \<or> c = 13 \<or> c = 32 \<or> c = 160 \<or> c = 5760
      \<or> (8192 \<le> c \<and> c \<le> 8202) \<or> c = 8232 \<or> c = 8233 \<or> c = 8239 \<or> c = 8287
      \<or> c = 12288 \<or> c = 65279)"

definition trim :: "jsstring \<Rightarrow> jsstring" where
  "trim s = rev (dropWhile isWhiteSpace (rev (dropWhile isWhiteSpace s)))"

text \<open>\<open>s.split(sep)\<close> for a separator of one code unit; the empty string gives one empty piece.\<close>

fun splitWhere :: "(nat \<Rightarrow> bool) \<Rightarrow> jsstring \<Rightarrow> jsstring list" where
  "splitWhere p [] = [[]]"
| "splitWhere p (c # cs) =
     (if p c then [] # splitWhere p cs
      else (case splitWhere p cs of [] \<Rightarrow> [[c]] | w # ws \<Rightarrow> (c # w) # ws))"

definition split :: "nat \<Rightarrow> jsstring \<Rightarrow> jsstring list" where
  "split sep s = splitWhere (\<lambda>c. c = sep) s"

text \<open>\<open>xs.join(sep)\<close>.\<close>

fun join :: "jsstring \<Rightarrow> jsstring list \<Rightarrow> jsstring" where
  "join sep [] = []"
| "join sep [x] = x"
| "join sep (x # y # ys) = x @ sep @ join sep (y # ys)"

text \<open>
  \<open>toUpperCase\<close> and \<open>toLowerCase\<close>. The program applies them to tag names, to the \<open>type\<close>
  of an input and to attribute values, and compares the results with ASCII literals. The
  code units whose conversion holds an ASCII code unit are converted as the full case
  mapping of Unicode says: the ASCII letters and, to upper case, U+00DF (\<open>SS\<close>), U+0131
  (\<open>I\<close>), U+0149, U+017F (\<open>S\<close>), U+01F0, U+1E96 to U+1E9A and the ligatures U+FB00 to
  U+FB06 (\<open>FF\<close>, \<open>FI\<close>, \<open>FL\<close>, \<open>FFI\<close>, \<open>FFL\<close>, \<open>ST\<close>, \<open>ST\<close>); to lower case, U+0130 and
  U+212A (\<open>k\<close>). Every other code unit stands for its own conversion, which holds no ASCII
  code unit either, so that every comparison with an ASCII literal comes out as in the
  program.
\<close>

definition kUpperCaseSpecial :: "(nat \<times> jsstring) list" where
  "kUpperCaseSpecial =
     [(223, [83, 83]), (305, [73]), (329, [700, 78]), (383, [83]), (496, [74, 780]),
      (7830, [72, 817]), (7831, [84, 776]), (7832, [87, 778]), (7833, [89, 778]),
      (7834, [65, 702]), (64256, [70, 70]), (64257, [70, 73]), (64258, [70, 76]),
      (64259, [70, 70, 73]), (64260, [70, 70, 76]), (64261, [83, 84]), (64262, [83, 84])]"

definition upperCaseUnit :: "nat \<Rightarrow> jsstring" where
  "upperCaseUnit c =
     (if c < 128 then [if 97 \<le> c \<and> c \<le> 122 then c - 32 else c]
      else (case map_of kUpperCaseSpecial c of Some upper \<Rightarrow> upper | None \<Rightarrow> [c]))"

definition toUpperCase :: "jsstring \<Rightarrow> jsstring" where
  "toUpperCase s = concat (map upperCaseUnit s)"

definition kLowerCaseSpecial :: "(nat \<times> jsstring) list" where
  "kLowerCaseSpecial = [(304, [105, 775]), (8490, [107])]"

definition lowerCaseUnit :: "nat \<Rightarrow> jsstring" where
  "lowerCaseUnit c =
     (if c < 128 then [if 65 \<le> c \<and> c \<le> 90 then c + 32 else c]
      else (case map_of kLowerCaseSpecial c of Some lower \<Rightarrow> lower | None \<Rightarrow> [c]))"

definition toLowerCase :: "jsstring \<Rightarrow> jsstring" where
  "toLowerCase s = concat (map lowerCaseUnit s)"

text \<open>\<open>s.substring(a, b)\<close>: the arguments are clamped to the length and swapped when \<open>a > b\<close>.\<close>

definition substring :: "nat \<Rightarrow> nat \<Rightarrow> jsstring \<Rightarrow> jsstring" where
  "substring a b s =
     (let a' = min a (length s); b' = min b (length s)
      in take (max a' b' - min a' b') (drop (min a' b') s))"

section \<open>The document tree\<close>

text \<open>
  The program reads the tree through the DOM. A document is the list of its elements in
  document order; an element is named by its index. Each element carries what the program
  reads from it: tag name, attributes, parent node, child nodes, shadow root, slot
  assignment, associated labels, the native state of form controls and the computed style.
\<close>

datatype node =
    ElementNode nat
  | TextNode (textContentOf: jsstring) (textAssignedSlot: bool) (textVisible: bool)
  | OtherNode

datatype parentNode =
    Detached
  | DocumentParent
  | ElementParent nat
  | ShadowRootParent nat

record style =
  display :: jsstring
  visibilityVisible :: bool

record pseudoStyle =
  content :: jsstring
  pseudoDisplay :: jsstring

record element =
  tagName :: jsstring
  attributes :: "(jsstring \<times> jsstring) list"
  parentNodeOf :: parentNode
  childNodes :: "node list"
  shadowRoot :: "node list option"
  assignedSlot :: bool
  assignedNodes :: "node list"
  labels :: "nat list option"
  inputType :: jsstring
  elementValue :: jsstring
  textContent :: jsstring
  selectedOptions :: "nat list"
  selectOptions :: "nat list"
  selectSize :: nat
  indeterminate :: bool
  checked :: bool
  ownerSVGElement :: bool
  computedStyle :: "style option"
  beforeStyle :: "pseudoStyle option"
  afterStyle :: "pseudoStyle option"
  tabindexIsNaN :: bool

type_synonym document = "element list"

definition detachedElement :: element where
  "detachedElement =
     \<lparr> tagName = [], attributes = [], parentNodeOf = Detached, childNodes = [],
       shadowRoot = None, assignedSlot = False, assignedNodes = [], labels = None,
       inputType = [], elementValue = [], textContent = [], selectedOptions = [],
       selectOptions = [], selectSize = 0, indeterminate = False, checked = False,
       ownerSVGElement = False, computedStyle = None, beforeStyle = None,
       afterStyle = None, tabindexIsNaN = True \<rparr>"

definition elementAt :: "document \<Rightarrow> nat \<Rightarrow> element" where
  "elementAt d e = (if e < length d then d ! e else detachedElement)"

definition getAttribute :: "document \<Rightarrow> nat \<Rightarrow> jsstring \<Rightarrow> jsstring option" where
  "getAttribute d e name = map_of (attributes (elementAt d e)) name"

definition hasAttribute :: "document \<Rightarrow> nat \<Rightarrow> jsstring \<Rightarrow> bool" where
  "hasAttribute d e name = (getAttribute d e name \<noteq> None)"

text \<open>\<open>getAttribute(name) || ''\<close>.\<close>

definition attributeOrEmpty :: "document \<Rightarrow> nat \<Rightarrow> jsstring \<Rightarrow> jsstring" where
  "attributeOrEmpty d e name = (case getAttribute d e name of None \<Rightarrow> [] | Some v \<Rightarrow> v)"

text \<open>
  Elements are stored in document order, so the parent of an element, and the host of
  the shadow root an element lies in, precede it. A stored link that points forward or to
  itself belongs to no tree and reads as no parent.
\<close>

definition parentElement :: "document \<Rightarrow> nat \<Rightarrow> nat option" where
  "parentElement d e =
     (case parentNodeOf (elementAt d e) of
        ElementParent p \<Rightarrow> if p < e then Some p else None
      | _ \<Rightarrow> None)"

text \<open>
  Modelled from the spec: \<open>parentElementOrShadowHost\<close> of \<open>domUtils\<close>, the
  parent-or-shadow-host lookup: the parent element, or the host when the parent node is a
  shadow root.
\<close>

definition parentElementOrShadowHost :: "document \<Rightarrow> nat \<Rightarrow> nat option" where
  "parentElementOrShadowHost d e =
     (case parentNodeOf (elementAt d e) of
        ElementParent p \<Rightarrow> if p < e then Some p else None
      | ShadowRootParent h \<Rightarrow> if h < e then Some h else None
      | _ \<Rightarrow> None)"

lemma parentElement_less: "parentElement d e = Some p \<Longrightarrow> p < e"
  by (auto simp: parentElement_def split: parentNode.splits if_splits)

lemma parentElementOrShadowHost_less: "parentElementOrShadowHost d e = Some p \<Longrightarrow> p < e"
  by (auto simp: parentElementOrShadowHost_def split: parentNode.splits if_splits)

text \<open>
  Modelled from the spec: \<open>enclosingShadowRootOrDocument\<close> of \<open>domUtils\<close>, the enclosing
  shadow root or document of an element, found by following parent nodes to the top;
  a detached subtree has none.
\<close>

datatype root = DocumentRoot | ShadowRootOf nat

function enclosingShadowRootOrDocument :: "document \<Rightarrow> nat \<Rightarrow> root option" where
  "enclosingShadowRootOrDocument d e =
     (case parentNodeOf (elementAt d e) of
        Detached \<Rightarrow> None
      | DocumentParent \<Rightarrow> Some DocumentRoot
      | ShadowRootParent h \<Rightarrow> Some (ShadowRootOf h)
      | ElementParent p \<Rightarrow> if p < e then enclosingShadowRootOrDocument d p else None)"
  by pat_completeness auto
termination
  by (relation "measure (\<lambda>(d, e). e)") auto

text \<open>
  \<open>root.querySelector('#' + CSS.escape(id))\<close>: the first element, in document order, of the
  tree under the given root whose \<open>id\<close> attribute is the identifier.
\<close>

definition querySelectorId :: "document \<Rightarrow> root \<Rightarrow> jsstring \<Rightarrow> nat option" where
  "querySelectorId d r ident =
     find (\<lambda>x. enclosingShadowRootOrDocument d x = Some r
               \<and> getAttribute d x (js ''id'') = Some ident) [0..<length d]"

text \<open>
  Modelled from the spec: \<open>closestCrossShadow\<close> of \<open>domUtils\<close>, the nearest node matching
  a selector among the element itself and its ancestors, crossing shadow boundaries. The
  selector is given as a predicate on elements.
\<close>

function closestCrossShadow :: "document \<Rightarrow> (document \<Rightarrow> nat \<Rightarrow> bool) \<Rightarrow> nat \<Rightarrow> nat option" where
  "closestCrossShadow d sel e =
     (if sel d e then Some e
      else (case parentElementOrShadowHost d e of
              None \<Rightarrow> None
            | Some p \<Rightarrow> closestCrossShadow d sel p))"
  by pat_completeness auto
termination
  by (relation "measure (\<lambda>(d, sel, e). e)") (auto dest: parentElementOrShadowHost_less)

text \<open>\<open>element.closest(selector)\<close>: the same walk through parent elements only.\<close>

function closest :: "document \<Rightarrow> (document \<Rightarrow> nat \<Rightarrow> bool) \<Rightarrow> nat \<Rightarrow> nat option" where
  "closest d sel e =
     (if sel d e then Some e
      else (case parentElement d e of
              None \<Rightarrow> None
            | Some p \<Rightarrow> closest d sel p))"
  by pat_completeness auto
termination
  by (relation "measure (\<lambda>(d, sel, e). e)") (auto dest: parentElement_less)

section \<open>Role resolver\<close>

definition hasExplicitAccessibleName :: "document \<Rightarrow> nat \<Rightarrow> bool" where
  "hasExplicitAccessibleName d e =
     (hasAttribute d e (js ''aria-label'') \<or> hasAttribute d e (js ''aria-labelledby''))"

text \<open>
  The selector \<open>kAncestorPreventingLandmark\<close>: sectioning elements without a \<open>role\<close>
  attribute, and elements whose \<open>role\<close> attribute is one of five landmark roles.
\<close>

definition kAncestorPreventingLandmark :: "document \<Rightarrow> nat \<Rightarrow> bool" where
  "kAncestorPreventingLandmark d e =
     ((tagName (elementAt d e) \<in> set (map js [''ARTICLE'', ''ASIDE'', ''MAIN'', ''NAV'', ''SECTION''])
         \<and> \<not> hasAttribute d e (js ''role''))
      \<or> (case getAttribute d e (js ''role'') of
            None \<Rightarrow> False
          | Some r \<Rightarrow> r \<in> set (map js [''article'', ''complementary'', ''main'', ''navigation'', ''region''])))"

definition tableSelector :: "document \<Rightarrow> nat \<Rightarrow> bool" where
  "tableSelector d e = (tagName (elementAt d e) = js ''TABLE'')"

definition selectSelector :: "document \<Rightarrow> nat \<Rightarrow> bool" where
  "selectSelector d e = (tagName (elementAt d e) = js ''SELECT'')"

definition kGlobalAriaAttributes :: "jsstring list" where
  "kGlobalAriaAttributes = map js
     [''aria-atomic'', ''aria-busy'', ''aria-controls'', ''aria-current'', ''aria-describedby'',
      ''aria-details'', ''aria-disabled'', ''aria-dropeffect'', ''aria-errormessage'',
      ''aria-flowto'', ''aria-grabbed'', ''aria-haspopup'', ''aria-hidden'', ''aria-invalid'',
      ''aria-keyshortcuts'', ''aria-label'', ''aria-labelledby'', ''aria-live'', ''aria-owns'',
      ''aria-relevant'', ''aria-roledescription'']"

definition hasGlobalAriaAttribute :: "document \<Rightarrow> nat \<Rightarrow> bool" where
  "hasGlobalAriaAttribute d e = list_ex (\<lambda>a. hasAttribute d e a) kGlobalAriaAttributes"

definition allRoles :: "jsstring list" where
  "allRoles = map js
     [''alert'', ''alertdialog'', ''application'', ''article'', ''banner'', ''blockquote'',
      ''button'', ''caption'', ''cell'', ''checkbox'', ''code'', ''columnheader'', ''combobox'',
      ''command'', ''complementary'', ''composite'', ''contentinfo'', ''definition'',
      ''deletion'', ''dialog'', ''directory'', ''document'', ''emphasis'', ''feed'', ''figure'',
      ''form'', ''generic'', ''grid'', ''gridcell'', ''group'', ''heading'', ''img'', ''input'',
      ''insertion'', ''landmark'', ''link'', ''list'', ''listbox'', ''listitem'', ''log'',
      ''main'', ''marquee'', ''math'', ''meter'', ''menu'', ''menubar'', ''menuitem'',
      ''menuitemcheckbox'', ''menuitemradio'', ''navigation'', ''none'', ''note'', ''option'',
      ''paragraph'', ''presentation'', ''progressbar'', ''radio'', ''radiogroup'', ''range'',
      ''region'', ''roletype'', ''row'', ''rowgroup'', ''rowheader'', ''scrollbar'', ''search'',
      ''searchbox'', ''section'', ''sectionhead'', ''select'', ''separator'', ''slider'',
      ''spinbutton'', ''status'', ''strong'', ''structure'', ''subscript'', ''superscript'',
      ''switch'', ''tab'', ''table'', ''tablist'', ''tabpanel'', ''term'', ''textbox'', ''time'',
      ''timer'', ''toolbar'', ''tooltip'', ''tree'', ''treegrid'', ''treeitem'', ''widget'',
      ''window'']"

definition abstractRoles :: "jsstring list" where
  "abstractRoles = map js
     [''command'', ''composite'', ''input'', ''landmark'', ''range'', ''roletype'', ''section'',
      ''sectionhead'', ''select'', ''structure'', ''widget'', ''window'']"

definition validRoles :: "jsstring list" where
  "validRoles = filter (\<lambda>role. role \<notin> set abstractRoles) allRoles"

definition getExplicitAriaRole :: "document \<Rightarrow> nat \<Rightarrow> jsstring option" where
  "getExplicitAriaRole d e =
     (let roles = map trim (split 32 (attributeOrEmpty d e (js ''role'')))
      in find (\<lambda>role. role \<in> set validRoles) roles)"

definition hasPresentationConflictResolution :: "document \<Rightarrow> nat \<Rightarrow> bool" where
  "hasPresentationConflictResolution d e = (\<not> hasGlobalAriaAttribute d e)"

text \<open>
  \<open>getIdRefs\<close>: the elements that a space-separated list of identifiers names in the
  enclosing shadow root or document of the element, without repetition, in the order of
  first occurrence.
\<close>

fun addToSet :: "nat list \<Rightarrow> nat \<Rightarrow> nat list" where
  "addToSet xs x = (if x \<in> set xs then xs else xs @ [x])"

definition getIdRefs :: "document \<Rightarrow> nat \<Rightarrow> jsstring option \<Rightarrow> nat list" where
  "getIdRefs d e ref =
     (case ref of
        None \<Rightarrow> []
      | Some r \<Rightarrow>
          if r = [] then []
          else (case enclosingShadowRootOrDocument d e of
                  None \<Rightarrow> []
                | Some root \<Rightarrow>
                    let ids = filter (\<lambda>i. i \<noteq> []) (split 32 r)
                    in foldl (\<lambda>acc i. case querySelectorId d root i of
                                         None \<Rightarrow> acc
                                       | Some firstElement \<Rightarrow> addToSet acc firstElement) [] ids))"

text \<open>The role of a table cell: \<open>gridcell\<close> under a table with explicit role grid or treegrid.\<close>

definition cellRole :: "document \<Rightarrow> nat \<Rightarrow> jsstring option" where
  "cellRole d e =
     (let role = (case closestCrossShadow d tableSelector e of
                    None \<Rightarrow> Some []
                  | Some table \<Rightarrow> getExplicitAriaRole d table)
      in if role = Some (js ''grid'') \<or> role = Some (js ''treegrid'')
         then Some (js ''gridcell'') else Some (js ''cell''))"

definition inputRole :: "document \<Rightarrow> nat \<Rightarrow> jsstring option" where
  "inputRole d e =
     (let type = toLowerCase (inputType (elementAt d e))
      in if type = js ''search''
         then (if hasAttribute d e (js ''list'') then Some (js ''combobox'') else Some (js ''searchbox''))
         else if type \<in> set (map js [''email'', ''tel'', ''text'', ''url'', ''''])
         then (case getIdRefs d e (getAttribute d e (js ''list'')) of
                 [] \<Rightarrow> Some (js ''textbox'')
               | lst # _ \<Rightarrow>
                   if tagName (elementAt d lst) = js ''DATALIST''
                   then Some (js ''combobox'') else Some (js ''textbox''))
         else if type = js ''hidden'' then Some []
         else (case map_of
                 [(js ''button'', js ''button''), (js ''checkbox'', js ''checkbox''),
                  (js ''image'', js ''button''), (js ''number'', js ''spinbutton''),
                  (js ''radio'', js ''radio''), (js ''range'', js ''slider''),
                  (js ''reset'', js ''button''), (js ''submit'', js ''button'')] type of
                 None \<Rightarrow> Some (js ''textbox'')
               | Some r \<Rightarrow> Some r))"

text \<open>
  \<open>kImplicitRoleByTagName\<close>: for each tag name a function from the element to its implicit
  role, \<open>None\<close> standing for null.
\<close>

definition kImplicitRoleByTagName :: "(jsstring \<times> (document \<Rightarrow> nat \<Rightarrow> jsstring option)) list" where
  "kImplicitRoleByTagName =
   [(js ''A'', \<lambda>d e. if hasAttribute d e (js ''href'') then Some (js ''link'') else None),
    (js ''AREA'', \<lambda>d e. if hasAttribute d e (js ''href'') then Some (js ''link'') else None),
    (js ''ARTICLE'', \<lambda>d e. Some (js ''article'')),
    (js ''ASIDE'', \<lambda>d e. Some (js ''complementary'')),
    (js ''BLOCKQUOTE'', \<lambda>d e. Some (js ''blockquote'')),
    (js ''BUTTON'', \<lambda>d e. Some (js ''button'')),
    (js ''CAPTION'', \<lambda>d e. Some (js ''caption'')),
    (js ''CODE'', \<lambda>d e. Some (js ''code'')),
    (js ''DATALIST'', \<lambda>d e. Some (js ''listbox'')),
    (js ''DD'', \<lambda>d e. Some (js ''definition'')),
    (js ''DEL'', \<lambda>d e. Some (js ''deletion'')),
    (js ''DETAILS'', \<lambda>d e. Some (js ''group'')),
    (js ''DFN'', \<lambda>d e. Some (js ''term'')),
    (js ''DIALOG'', \<lambda>d e. Some (js ''dialog'')),
    (js ''DT'', \<lambda>d e. Some (js ''term'')),
    (js ''EM'', \<lambda>d e. Some (js ''emphasis'')),
    (js ''FIELDSET'', \<lambda>d e. Some (js ''group'')),
    (js ''FIGURE'', \<lambda>d e. Some (js ''figure'')),
    (js ''FOOTER'', \<lambda>d e. if closestCrossShadow d kAncestorPreventingLandmark e \<noteq> None
                           then None else Some (js ''contentinfo'')),
    (js ''FORM'', \<lambda>d e. if hasExplicitAccessibleName d e then Some (js ''form'') else None),
    (js ''H1'', \<lambda>d e. Some (js ''heading'')),
    (js ''H2'', \<lambda>d e. Some (js ''heading'')),
    (js ''H3'', \<lambda>d e. Some (js ''heading'')),
    (js ''H4'', \<lambda>d e. Some (js ''heading'')),
    (js ''H5'', \<lambda>d e. Some (js ''heading'')),
    (js ''H6'', \<lambda>d e. Some (js ''heading'')),
    (js ''HEADER'', \<lambda>d e. if closestCrossShadow d kAncestorPreventingLandmark e \<noteq> None
                           then None else Some (js ''banner'')),
    (js ''HR'', \<lambda>d e. Some (js ''separator'')),
    (js ''HTML'', \<lambda>d e. Some (js ''document'')),
    (js ''IMG'', \<lambda>d e. if getAttribute d e (js ''alt'') = Some []
                          \<and> \<not> hasGlobalAriaAttribute d e
                          \<and> (getAttribute d e (js ''tabindex'') = None
                               \<or> tabindexIsNaN (elementAt d e))
                        then Some (js ''presentation'') else Some (js ''img'')),
    (js ''INPUT'', inputRole),
    (js ''INS'', \<lambda>d e. Some (js ''insertion'')),
    (js ''LI'', \<lambda>d e. Some (js ''listitem'')),
    (js ''MAIN'', \<lambda>d e. Some (js ''main'')),
    (js ''MARK'', \<lambda>d e. Some (js ''mark'')),
    (js ''MATH'', \<lambda>d e. Some (js ''math'')),
    (js ''MENU'', \<lambda>d e. Some (js ''list'')),
    (js ''METER'', \<lambda>d e. Some (js ''meter'')),
    (js ''NAV'', \<lambda>d e. Some (js ''navigation'')),
    (js ''OL'', \<lambda>d e. Some (js ''list'')),
    (js ''OPTGROUP'', \<lambda>d e. Some (js ''group'')),
    (js ''OPTION'', \<lambda>d e. Some (js ''option'')),
    (js ''OUTPUT'', \<lambda>d e. Some (js ''status'')),
    (js ''P'', \<lambda>d e. Some (js ''paragraph'')),
    (js ''PROGRESS'', \<lambda>d e. Some (js ''progressbar'')),
    (js ''SECTION'', \<lambda>d e. if hasExplicitAccessibleName d e then Some (js ''region'') else None),
    (js ''SELECT'', \<lambda>d e. if hasAttribute d e (js ''multiple'') \<or> selectSize (elementAt d e) > 1
                           then Some (js ''listbox'') else Some (js ''combobox'')),
    (js ''STRONG'', \<lambda>d e. Some (js ''strong'')),
    (js ''SUB'', \<lambda>d e. Some (js ''subscript'')),
    (js ''SUP'', \<lambda>d e. Some (js ''superscript'')),
    (js ''SVG'', \<lambda>d e. Some (js ''img'')),
    (js ''TABLE'', \<lambda>d e. Some (js ''table'')),
    (js ''TBODY'', \<lambda>d e. Some (js ''rowgroup'')),
    (js ''TD'', cellRole),
    (js ''TEXTAREA'', \<lambda>d e. Some (js ''textbox'')),
    (js ''TFOOT'', \<lambda>d e. Some (js ''rowgroup'')),
    (js ''TH'', \<lambda>d e. if getAttribute d e (js ''scope'') = Some (js ''col'') then Some (js ''columnheader'')
                       else if getAttribute d e (js ''scope'') = Some (js ''row'') then Some (js ''rowheader'')
                       else cellRole d e),
    (js ''THEAD'', \<lambda>d e. Some (js ''rowgroup'')),
    (js ''TIME'', \<lambda>d e. Some (js ''time'')),
    (js ''TR'', \<lambda>d e. Some (js ''row'')),
    (js ''UL'', \<lambda>d e. Some (js ''list''))]"

definition kPresentationInheritanceParents :: "(jsstring \<times> jsstring list) list" where
  "kPresentationInheritanceParents =
   [(js ''DD'', map js [''DL'', ''DIV'']),
    (js ''DIV'', map js [''DL'']),
    (js ''DT'', map js [''DL'', ''DIV'']),
    (js ''LI'', map js [''OL'', ''UL'']),
    (js ''TBODY'', map js [''TABLE'']),
    (js ''TD'', map js [''TR'']),
    (js ''TFOOT'', map js [''TABLE'']),
    (js ''TH'', map js [''TR'']),
    (js ''THEAD'', map js [''TABLE'']),
    (js ''TR'', map js [''THEAD'', ''TBODY'', ''TFOOT'', ''TABLE''])]"

text \<open>
  The loop of \<open>getImplicitAriaRole\<close> that walks up from the element while the tag of each
  node and of its parent are paired in \<open>kPresentationInheritanceParents\<close>.
\<close>

function inheritPresentation :: "document \<Rightarrow> jsstring \<Rightarrow> nat \<Rightarrow> jsstring option" where
  "inheritPresentation d implicitRole ancestor =
     (case parentElementOrShadowHost d ancestor of
        None \<Rightarrow> Some implicitRole
      | Some parent \<Rightarrow>
          (case map_of kPresentationInheritanceParents (tagName (elementAt d ancestor)) of
             None \<Rightarrow> Some implicitRole
           | Some parents \<Rightarrow>
               if tagName (elementAt d parent) \<notin> set parents then Some implicitRole
               else let parentExplicitRole = getExplicitAriaRole d parent
                    in if (parentExplicitRole = Some (js ''none'')
                             \<or> parentExplicitRole = Some (js ''presentation''))
                          \<and> \<not> hasPresentationConflictResolution d parent
                       then parentExplicitRole
                       else inheritPresentation d implicitRole parent))"
  by pat_completeness auto
termination
  by (relation "measure (\<lambda>(d, r, a). a)") (auto dest: parentElementOrShadowHost_less)

definition getImplicitAriaRole :: "document \<Rightarrow> nat \<Rightarrow> jsstring option" where
  "getImplicitAriaRole d e =
     (let implicitRole =
            (case map_of kImplicitRoleByTagName (toUpperCase (tagName (elementAt d e))) of
               None \<Rightarrow> []
             | Some f \<Rightarrow> (case f d e of None \<Rightarrow> [] | Some r \<Rightarrow> r))
      in if implicitRole = [] then None
         else inheritPresentation d implicitRole e)"

definition getAriaRole :: "document \<Rightarrow> nat \<Rightarrow> jsstring option" where
  "getAriaRole d e =
     (case getExplicitAriaRole d e of
        None \<Rightarrow> getImplicitAriaRole d e
      | Some explicitRole \<Rightarrow>
          if (explicitRole = js ''none'' \<or> explicitRole = js ''presentation'')
             \<and> hasPresentationConflictResolution d e
          then getImplicitAriaRole d e
          else Some explicitRole)"

text \<open>\<open>getAriaRole(element) || ''\<close>.\<close>

definition roleOrEmpty :: "document \<Rightarrow> nat \<Rightarrow> jsstring" where
  "roleOrEmpty d e = (case getAriaRole d e of None \<Rightarrow> [] | Some r \<Rightarrow> r)"

section \<open>Pass-scoped caches\<close>

text \<open>
  The module keeps three caches, each a \<open>Map\<close> keyed by element or undefined, and a
  counter of open passes. A \<open>Map\<close> is an association list whose first entry for a key is
  the current one.
\<close>

record ariaCaches =
  cacheAccessibleName :: "(nat \<times> jsstring) list option"
  cacheAccessibleNameHidden :: "(nat \<times> jsstring) list option"
  cacheIsHidden :: "(nat \<times> bool) list option"
  cachesCounter :: int

text \<open>\<open>cache?.get(element)\<close> and \<open>cache?.set(element, value)\<close>.\<close>

definition cacheGet :: "(nat \<times> 'v) list option \<Rightarrow> nat \<Rightarrow> 'v option" where
  "cacheGet cache e = (case cache of None \<Rightarrow> None | Some m \<Rightarrow> map_of m e)"

definition cacheSet :: "(nat \<times> 'v) list option \<Rightarrow> nat \<Rightarrow> 'v \<Rightarrow> (nat \<times> 'v) list option" where
  "cacheSet cache e v = (case cache of None \<Rightarrow> None | Some m \<Rightarrow> Some ((e, v) # m))"

definition initialCaches :: ariaCaches where
  "initialCaches =
     \<lparr> cacheAccessibleName = None, cacheAccessibleNameHidden = None, cacheIsHidden = None,
       cachesCounter = 0 \<rparr>"

definition orNewMap :: "(nat \<times> 'v) list option \<Rightarrow> (nat \<times> 'v) list option" where
  "orNewMap cache = (case cache of None \<Rightarrow> Some [] | Some m \<Rightarrow> Some m)"

definition beginAriaCaches :: "ariaCaches \<Rightarrow> ariaCaches" where
  "beginAriaCaches s =
     \<lparr> cacheAccessibleName = orNewMap (cacheAccessibleName s),
       cacheAccessibleNameHidden = orNewMap (cacheAccessibleNameHidden s),
       cacheIsHidden = orNewMap (cacheIsHidden s),
       cachesCounter = cachesCounter s + 1 \<rparr>"

definition endAriaCaches :: "ariaCaches \<Rightarrow> ariaCaches" where
  "endAriaCaches s =
     (if cachesCounter s - 1 = 0
      then \<lparr> cacheAccessibleName = None, cacheAccessibleNameHidden = None,
             cacheIsHidden = None, cachesCounter = cachesCounter s - 1 \<rparr>
      else s\<lparr> cachesCounter := cachesCounter s - 1 \<rparr>)"

section \<open>Visibility classifier\<close>

definition getAriaBoolean :: "jsstring option \<Rightarrow> bool option" where
  "getAriaBoolean attr = (case attr of None \<Rightarrow> None | Some a \<Rightarrow> Some (toLowerCase a = js ''true''))"

text \<open>
  Modelled from the spec: \<open>isElementStyleVisibilityVisible\<close> of \<open>domUtils\<close>, whether the
  computed visibility of the element is visible; an element without computed style
  counts as visible.
\<close>

definition isElementStyleVisibilityVisible :: "document \<Rightarrow> nat \<Rightarrow> bool" where
  "isElementStyleVisibilityVisible d e =
     (case computedStyle (elementAt d e) of None \<Rightarrow> True | Some s \<Rightarrow> visibilityVisible s)"

function belongsToDisplayNoneOrAriaHiddenOrNonSlotted ::
    "document \<Rightarrow> nat \<Rightarrow> (nat \<times> bool) list option \<Rightarrow> bool \<times> (nat \<times> bool) list option" where
  "belongsToDisplayNoneOrAriaHiddenOrNonSlotted d e cache =
     (case cacheGet cache e of
        Some hidden \<Rightarrow> (hidden, cache)
      | None \<Rightarrow>
          let nonSlotted =
                (case parentElement d e of
                   None \<Rightarrow> False
                 | Some p \<Rightarrow> shadowRoot (elementAt d p) \<noteq> None \<and> \<not> assignedSlot (elementAt d e));
              hidden =
                (nonSlotted
                 \<or> (case computedStyle (elementAt d e) of
                       None \<Rightarrow> True
                     | Some s \<Rightarrow> display s = js ''none''
                         \<or> getAriaBoolean (getAttribute d e (js ''aria-hidden'')) = Some True))
          in if hidden then (True, cacheSet cache e True)
             else (case parentElementOrShadowHost d e of
                     None \<Rightarrow> (False, cacheSet cache e False)
                   | Some parent \<Rightarrow>
                       (case belongsToDisplayNoneOrAriaHiddenOrNonSlotted d parent cache of
                          (h, cache') \<Rightarrow> (h, cacheSet cache' e h))))"
  by pat_completeness auto
termination
  by (relation "measure (\<lambda>(d, e, cache). e)") (auto dest: parentElementOrShadowHost_less)

text \<open>
  \<open>isElementHiddenForAria\<close> and its loop over the child nodes of a \<open>display: contents\<close>
  element. Child elements follow their parent in document order; a stored child that does
  not is skipped.
\<close>

function isElementHiddenForAria ::
    "document \<Rightarrow> nat \<Rightarrow> (nat \<times> bool) list option \<Rightarrow> bool \<times> (nat \<times> bool) list option"
  and allChildrenHidden ::
    "document \<Rightarrow> nat \<Rightarrow> node list \<Rightarrow> (nat \<times> bool) list option \<Rightarrow> bool \<times> (nat \<times> bool) list option" where
  "isElementHiddenForAria d e cache =
     (if tagName (elementAt d e) \<in> set (map js [''STYLE'', ''SCRIPT'', ''NOSCRIPT'', ''TEMPLATE''])
      then (True, cache)
      else
        let isSlot = (tagName (elementAt d e) = js ''SLOT'')
        in if (case computedStyle (elementAt d e) of None \<Rightarrow> False | Some s \<Rightarrow> display s = js ''contents'')
              \<and> \<not> isSlot
           then allChildrenHidden d e (childNodes (elementAt d e)) cache
           else
             let isOptionInsideSelect =
                   (tagName (elementAt d e) = js ''OPTION'' \<and> closest d selectSelector e \<noteq> None)
             in if \<not> isOptionInsideSelect \<and> \<not> isSlot \<and> \<not> isElementStyleVisibilityVisible d e
                then (True, cache)
                else belongsToDisplayNoneOrAriaHiddenOrNonSlotted d e cache)"
| "allChildrenHidden d e [] cache = (True, cache)"
| "allChildrenHidden d e (child # rest) cache =
     (case child of
        ElementNode c \<Rightarrow>
          if e < c \<and> c < length d
          then (case isElementHiddenForAria d c cache of
                  (h, cache') \<Rightarrow> if \<not> h then (False, cache') else allChildrenHidden d e rest cache')
          else allChildrenHidden d e rest cache
      | TextNode txt slotted visible \<Rightarrow>
          if visible then (False, cache) else allChildrenHidden d e rest cache
      | OtherNode \<Rightarrow> allChildrenHidden d e rest cache)"
  by pat_completeness auto
termination
  by (relation "measures [\<lambda>x. case x of Inl (d, e, cache) \<Rightarrow> length d - e
                                       | Inr (d, e, ns, cache) \<Rightarrow> length d - e,
                          \<lambda>x. case x of Inl (d, e, cache) \<Rightarrow> length (childNodes (elementAt d e)) + 2
                                       | Inr (d, e, ns, cache) \<Rightarrow> Suc (length ns)]")
     auto

section \<open>Name computation engine\<close>

subsection \<open>Normalisation\<close>

text \<open>\<open>s.replace(/\r\n/g, '\n')\<close>.\<close>

fun replaceCrLf :: "jsstring \<Rightarrow> jsstring" where
  "replaceCrLf [] = []"
| "replaceCrLf [c] = [c]"
| "replaceCrLf (c # c' # cs) =
     (if c = 13 \<and> c' = 10 then 10 # replaceCrLf cs else c # replaceCrLf (c' # cs))"

text \<open>\<open>s.replace(/\u00A0/g, ' ')\<close>: every non-breaking space becomes a space.\<close>

definition replaceNbsp :: "jsstring \<Rightarrow> jsstring" where
  "replaceNbsp s = map (\<lambda>c. if c = 160 then 32 else c) s"

text \<open>\<open>s.replace(/\s\s+/g, ' ')\<close>: every maximal run of two or more white space characters
  becomes one space.\<close>

function collapseWhiteSpace :: "jsstring \<Rightarrow> jsstring" where
  "collapseWhiteSpace [] = []"
| "collapseWhiteSpace [c] = [c]"
| "collapseWhiteSpace (c # c' # cs) =
     (if isWhiteSpace c \<and> isWhiteSpace c'
      then 32 # collapseWhiteSpace (dropWhile isWhiteSpace cs)
      else c # collapseWhiteSpace (c' # cs))"
  by pat_completeness auto
termination
  by (relation "measure length") (auto intro!: le_imp_less_Suc le_SucI length_dropWhile_le)

definition normalizeAccessbileName :: "jsstring \<Rightarrow> jsstring" where
  "normalizeAccessbileName s = trim (collapseWhiteSpace (replaceNbsp (replaceCrLf s)))"

subsection \<open>Queries on the tree\<close>

text \<open>
  \<open>element.querySelectorAll(selector)\<close>: the elements below the element in its own tree,
  in document order, that match the selector.
\<close>

function isDescendantOf :: "document \<Rightarrow> nat \<Rightarrow> nat \<Rightarrow> bool" where
  "isDescendantOf d x e =
     (case parentElement d x of
        None \<Rightarrow> False
      | Some p \<Rightarrow> p = e \<or> isDescendantOf d p e)"
  by pat_completeness auto
termination
  by (relation "measure (\<lambda>(d, x, e). x)") (auto dest: parentElement_less)

definition querySelectorAll :: "document \<Rightarrow> nat \<Rightarrow> (document \<Rightarrow> nat \<Rightarrow> bool) \<Rightarrow> nat list" where
  "querySelectorAll d e sel = filter (\<lambda>x. isDescendantOf d x e \<and> sel d x) [0..<length d]"

definition anyElementSelector :: "document \<Rightarrow> nat \<Rightarrow> bool" where
  "anyElementSelector d e = True"

definition ariaSelectedTrueSelector :: "document \<Rightarrow> nat \<Rightarrow> bool" where
  "ariaSelectedTrueSelector d e = (getAttribute d e (js ''aria-selected'') = Some (js ''true''))"

definition queryInAriaOwned :: "document \<Rightarrow> nat \<Rightarrow> (document \<Rightarrow> nat \<Rightarrow> bool) \<Rightarrow> nat list" where
  "queryInAriaOwned d e sel =
     querySelectorAll d e sel
     @ concat (map (\<lambda>owned. (if sel d owned then [owned] else []) @ querySelectorAll d owned sel)
                   (getIdRefs d e (getAttribute d e (js ''aria-owns''))))"

definition getPseudoContent :: "pseudoStyle option \<Rightarrow> jsstring" where
  "getPseudoContent pseudo =
     (case pseudo of
        None \<Rightarrow> []
      | Some st \<Rightarrow>
          let c = content st
          in if c \<noteq> [] \<and> ((hd c = 39 \<and> last c = 39) \<or> (hd c = 34 \<and> last c = 34))
             then (let unquoted = substring 1 (length c - 1) c;
                       disp = (if pseudoDisplay st = [] then js ''inline'' else pseudoDisplay st)
                   in if disp \<noteq> js ''inline'' then js '' '' @ unquoted @ js '' '' else unquoted)
             else [])"

definition getAriaLabelledByElements :: "document \<Rightarrow> nat \<Rightarrow> nat list option" where
  "getAriaLabelledByElements d e =
     (case getAttribute d e (js ''aria-labelledby'') of
        None \<Rightarrow> None
      | Some ref \<Rightarrow> Some (getIdRefs d e (Some ref)))"

definition allowsNameFromContent :: "jsstring \<Rightarrow> bool \<Rightarrow> bool" where
  "allowsNameFromContent role targetDescendant =
     (let alwaysAllowsNameFromContent =
            (role \<in> set (map js
               [''button'', ''cell'', ''checkbox'', ''columnheader'', ''gridcell'', ''heading'',
                ''link'', ''menuitem'', ''menuitemcheckbox'', ''menuitemradio'', ''option'',
                ''radio'', ''row'', ''rowheader'', ''switch'', ''tab'', ''tooltip'', ''treeitem'']));
          descendantAllowsNameFromContent =
            (targetDescendant \<and> role \<in> set ([] # map js
               [''caption'', ''code'', ''contentinfo'', ''definition'', ''deletion'',
                ''emphasis'', ''insertion'', ''list'', ''listitem'', ''mark'', ''none'',
                ''paragraph'', ''presentation'', ''region'', ''row'', ''rowgroup'', ''section'',
                ''strong'', ''subscript'', ''superscript'', ''table'', ''term'', ''time'']))
      in alwaysAllowsNameFromContent \<or> descendantAllowsNameFromContent)"

text \<open>
  Links stored on an element to nodes outside the document name nothing: the lists the
  program iterates over hold elements of the document only.
\<close>

definition nodesInDocument :: "document \<Rightarrow> node list \<Rightarrow> node list" where
  "nodesInDocument d ns =
     filter (\<lambda>n. case n of ElementNode c \<Rightarrow> c < length d | _ \<Rightarrow> True) ns"

definition elementsInDocument :: "document \<Rightarrow> nat list \<Rightarrow> nat list" where
  "elementsInDocument d xs = filter (\<lambda>x. x < length d) xs"

text \<open>\<open>element.labels || []\<close>.\<close>

definition labelsOf :: "document \<Rightarrow> nat \<Rightarrow> nat list" where
  "labelsOf d e =
     (case labels (elementAt d e) of None \<Rightarrow> [] | Some ls \<Rightarrow> elementsInDocument d ls)"

text \<open>The loop from \<open>firstElementChild\<close> along \<open>nextElementSibling\<close>, up to the first
  child that satisfies a test.\<close>

fun elementChildren :: "node list \<Rightarrow> nat list" where
  "elementChildren [] = []"
| "elementChildren (ElementNode c # ns) = c # elementChildren ns"
| "elementChildren (_ # ns) = elementChildren ns"

definition firstElementChildWhere :: "document \<Rightarrow> nat \<Rightarrow> (element \<Rightarrow> bool) \<Rightarrow> nat option" where
  "firstElementChildWhere d e test =
     find (\<lambda>c. test (elementAt d c)) (elementChildren (nodesInDocument d (childNodes (elementAt d e))))"

subsection \<open>The recursive worker\<close>

datatype embedding = EmbeddedNone | EmbeddedSelf | EmbeddedDescendant

text \<open>
  \<open>AccessibleNameOptions\<close>. The set \<open>visitedElements\<close> is one object shared by all the
  calls of a computation; it is threaded through the calls, together with the cache of
  hidden states that \<open>isElementHiddenForAria\<close> updates.
\<close>

record accessibleNameOptions =
  includeHidden :: bool
  embeddedInLabelledBy :: embedding
  embeddedInLabel :: embedding
  embeddedInTextAlternativeElement :: bool
  embeddedInTargetElement :: embedding

record traversal =
  visitedElements :: "nat list"
  hiddenCache :: "(nat \<times> bool) list option"

type_synonym namer = "nat \<Rightarrow> accessibleNameOptions \<Rightarrow> traversal \<Rightarrow> (jsstring \<times> traversal) option"

definition markVisited :: "nat \<Rightarrow> traversal \<Rightarrow> traversal" where
  "markVisited e t = t\<lparr> visitedElements := addToSet (visitedElements t) e \<rparr>"

text \<open>\<open>xs.map(x => f(x))\<close> for an \<open>f\<close> that updates the traversal; \<open>None\<close> when a call
  does not return.\<close>

fun mapNames :: "(nat \<Rightarrow> traversal \<Rightarrow> (jsstring \<times> traversal) option) \<Rightarrow> nat list \<Rightarrow> traversal
    \<Rightarrow> (jsstring list \<times> traversal) option" where
  "mapNames f [] t = Some ([], t)"
| "mapNames f (x # xs) t =
     (case f x t of
        None \<Rightarrow> None
      | Some (name, t') \<Rightarrow>
          (case mapNames f xs t' of
             None \<Rightarrow> None
           | Some (names, t'') \<Rightarrow> Some (name # names, t'')))"

definition getAccessibleNameFromAssociatedLabels ::
    "namer \<Rightarrow> nat list \<Rightarrow> accessibleNameOptions \<Rightarrow> traversal \<Rightarrow> (jsstring \<times> traversal) option" where
  "getAccessibleNameFromAssociatedLabels rec ls options t =
     (case mapNames (\<lambda>label. rec label (options\<lparr> embeddedInLabel := EmbeddedSelf,
                                                  embeddedInTextAlternativeElement := False,
                                                  embeddedInLabelledBy := EmbeddedNone,
                                                  embeddedInTargetElement := EmbeddedNone \<rparr>)) ls t of
        None \<Rightarrow> None
      | Some (names, t') \<Rightarrow> Some (join (js '' '') (filter (\<lambda>accessibleName. accessibleName \<noteq> []) names), t'))"

text \<open>Step 2i: the title, and the empty name at the end.\<close>

definition step2i :: "document \<Rightarrow> nat \<Rightarrow> jsstring \<Rightarrow> traversal \<Rightarrow> jsstring \<times> traversal" where
  "step2i d e role t =
     (if role \<notin> set (map js [''presentation'', ''none'']) \<or> tagName (elementAt d e) = js ''IFRAME''
      then (let t1 = markVisited e t;
                title = attributeOrEmpty d e (js ''title'')
            in if trim title \<noteq> [] then (title, t1) else ([], markVisited e t1))
      else ([], markVisited e t))"

text \<open>The function \<open>visit\<close> of steps 2f and 2h, applied to a list of nodes in turn.\<close>

fun visitNodes :: "namer \<Rightarrow> document \<Rightarrow> accessibleNameOptions \<Rightarrow> bool \<Rightarrow> node list \<Rightarrow> traversal
    \<Rightarrow> (jsstring list \<times> traversal) option" where
  "visitNodes rec d childOptions skipSlotted [] t = Some ([], t)"
| "visitNodes rec d childOptions skipSlotted (ElementNode c # ns) t =
     (if skipSlotted \<and> assignedSlot (elementAt d c)
      then visitNodes rec d childOptions skipSlotted ns t
      else
        (let disp = (case computedStyle (elementAt d c) of
                       None \<Rightarrow> js ''inline''
                     | Some s \<Rightarrow> if display s = [] then js ''inline'' else display s)
         in case rec c childOptions t of
              None \<Rightarrow> None
            | Some (token, t') \<Rightarrow>
                (case visitNodes rec d childOptions skipSlotted ns t' of
                   None \<Rightarrow> None
                 | Some (tokens, t'') \<Rightarrow>
                     Some ((if disp \<noteq> js ''inline'' \<or> tagName (elementAt d c) = js ''BR''
                            then js '' '' @ token @ js '' '' else token) # tokens, t''))))"
| "visitNodes rec d childOptions skipSlotted (TextNode txt slotted visible # ns) t =
     (if skipSlotted \<and> slotted
      then visitNodes rec d childOptions skipSlotted ns t
      else (case visitNodes rec d childOptions skipSlotted ns t of
              None \<Rightarrow> None
            | Some (tokens, t') \<Rightarrow> Some (txt # tokens, t')))"
| "visitNodes rec d childOptions skipSlotted (OtherNode # ns) t =
     visitNodes rec d childOptions skipSlotted ns t"

text \<open>Steps 2f and 2h: the name from the content.\<close>

definition step2f :: "namer \<Rightarrow> document \<Rightarrow> nat \<Rightarrow> accessibleNameOptions \<Rightarrow> accessibleNameOptions
    \<Rightarrow> jsstring \<Rightarrow> traversal \<Rightarrow> (jsstring \<times> traversal) option" where
  "step2f rec d e options childOptions role t =
     (if allowsNameFromContent role (embeddedInTargetElement options = EmbeddedDescendant)
         \<or> embeddedInLabelledBy options \<noteq> EmbeddedNone
         \<or> embeddedInLabel options \<noteq> EmbeddedNone
         \<or> embeddedInTextAlternativeElement options
      then
        (let t1 = markVisited e t;
             assigned = (if tagName (elementAt d e) = js ''SLOT''
                         then nodesInDocument d (assignedNodes (elementAt d e)) else [])
         in case (if assigned \<noteq> []
                  then visitNodes rec d childOptions False assigned t1
                  else visitNodes rec d childOptions True
                         (nodesInDocument d (childNodes (elementAt d e))
                          @ (case shadowRoot (elementAt d e) of
                               None \<Rightarrow> []
                             | Some ns \<Rightarrow> nodesInDocument d ns)
                          @ map ElementNode (getIdRefs d e (getAttribute d e (js ''aria-owns'')))) t1) of
              None \<Rightarrow> None
            | Some (tokens, t2) \<Rightarrow>
                (let accessibleName =
                       concat ([getPseudoContent (beforeStyle (elementAt d e))] @ tokens
                               @ [getPseudoContent (afterStyle (elementAt d e))])
                 in if trim accessibleName \<noteq> [] then Some (accessibleName, t2)
                    else Some (step2i d e role t2)))
      else Some (step2i d e role t))"

text \<open>
  Step 2e, the rules of the native host language, in the order of the source. The rules
  for \<open>area\<close> elements and for SVG come last; the SVG rules may fall through to step 2f.
\<close>

definition step2e_svgLink :: "namer \<Rightarrow> document \<Rightarrow> nat \<Rightarrow> accessibleNameOptions
    \<Rightarrow> accessibleNameOptions \<Rightarrow> jsstring \<Rightarrow> traversal \<Rightarrow> (jsstring \<times> traversal) option" where
  "step2e_svgLink rec d e options childOptions role t =
     (if ownerSVGElement (elementAt d e) \<and> toUpperCase (tagName (elementAt d e)) = js ''A''
         \<and> trim (attributeOrEmpty d e (js ''xlink:title'')) \<noteq> []
      then Some (attributeOrEmpty d e (js ''xlink:title''), markVisited e t)
      else step2f rec d e options childOptions role t)"

definition step2e_graphics :: "namer \<Rightarrow> document \<Rightarrow> nat \<Rightarrow> accessibleNameOptions
    \<Rightarrow> accessibleNameOptions \<Rightarrow> jsstring \<Rightarrow> traversal \<Rightarrow> (jsstring \<times> traversal) option" where
  "step2e_graphics rec d e options childOptions role t =
     (if tagName (elementAt d e) = js ''AREA''
      then (let t1 = markVisited e t;
                alt = attributeOrEmpty d e (js ''alt'')
            in if trim alt \<noteq> [] then Some (alt, t1)
               else Some (attributeOrEmpty d e (js ''title''), t1))
      else if toUpperCase (tagName (elementAt d e)) = js ''SVG'' \<or> ownerSVGElement (elementAt d e)
      then (let t1 = markVisited e t
            in case firstElementChildWhere d e
                      (\<lambda>child. toUpperCase (tagName child) = js ''TITLE'' \<and> ownerSVGElement child) of
                 Some child \<Rightarrow> rec child (childOptions\<lparr> embeddedInLabelledBy := EmbeddedSelf \<rparr>) t1
               | None \<Rightarrow> step2e_svgLink rec d e options childOptions role t1)
      else step2e_svgLink rec d e options childOptions role t)"

text \<open>The rules for \<open>output\<close>, text fields and selects, \<open>fieldset\<close>, \<open>figure\<close>, \<open>img\<close> and
  \<open>table\<close>; the table rule falls through when the table has neither caption nor summary.\<close>

definition step2e_elements :: "namer \<Rightarrow> document \<Rightarrow> nat \<Rightarrow> accessibleNameOptions
    \<Rightarrow> accessibleNameOptions \<Rightarrow> nat list option \<Rightarrow> jsstring \<Rightarrow> traversal
    \<Rightarrow> (jsstring \<times> traversal) option" where
  "step2e_elements rec d e options childOptions labelledBy role t =
     (let tag = tagName (elementAt d e)
      in if labelledBy = None \<and> tag = js ''OUTPUT''
         then (let t1 = markVisited e t
               in if labelsOf d e \<noteq> []
                  then getAccessibleNameFromAssociatedLabels rec (labelsOf d e) options t1
                  else Some (attributeOrEmpty d e (js ''title''), t1))
         else if labelledBy = None \<and> (tag = js ''TEXTAREA'' \<or> tag = js ''SELECT'' \<or> tag = js ''INPUT'')
         then (let t1 = markVisited e t
               in if labelsOf d e \<noteq> []
                  then getAccessibleNameFromAssociatedLabels rec (labelsOf d e) options t1
                  else
                    (let usePlaceholder =
                           ((tag = js ''INPUT''
                               \<and> inputType (elementAt d e) \<in> set (map js
                                    [''text'', ''password'', ''search'', ''tel'', ''email'', ''url'']))
                            \<or> tag = js ''TEXTAREA'');
                         placeholder = attributeOrEmpty d e (js ''placeholder'');
                         title = attributeOrEmpty d e (js ''title'')
                     in if \<not> usePlaceholder \<or> title \<noteq> [] then Some (title, t1)
                        else Some (placeholder, t1)))
         else if labelledBy = None \<and> tag = js ''FIELDSET''
         then (let t1 = markVisited e t
               in case firstElementChildWhere d e (\<lambda>child. tagName child = js ''LEGEND'') of
                    Some child \<Rightarrow>
                      rec child (childOptions\<lparr> embeddedInTextAlternativeElement := True \<rparr>) t1
                  | None \<Rightarrow> Some (attributeOrEmpty d e (js ''title''), t1))
         else if labelledBy = None \<and> tag = js ''FIGURE''
         then (let t1 = markVisited e t
               in case firstElementChildWhere d e (\<lambda>child. tagName child = js ''FIGCAPTION'') of
                    Some child \<Rightarrow>
                      rec child (childOptions\<lparr> embeddedInTextAlternativeElement := True \<rparr>) t1
                  | None \<Rightarrow> Some (attributeOrEmpty d e (js ''title''), t1))
         else if tag = js ''IMG''
         then (let t1 = markVisited e t;
                   alt = attributeOrEmpty d e (js ''alt'')
               in if trim alt \<noteq> [] then Some (alt, t1)
                  else Some (attributeOrEmpty d e (js ''title''), t1))
         else if tag = js ''TABLE''
         then (let t1 = markVisited e t
               in case firstElementChildWhere d e (\<lambda>child. tagName child = js ''CAPTION'') of
                    Some child \<Rightarrow>
                      rec child (childOptions\<lparr> embeddedInTextAlternativeElement := True \<rparr>) t1
                  | None \<Rightarrow>
                      (let summary = attributeOrEmpty d e (js ''summary'')
                       in if summary \<noteq> [] then Some (summary, t1)
                          else step2e_graphics rec d e options childOptions role t1))
         else step2e_graphics rec d e options childOptions role t)"

text \<open>The rules for inputs of type button, submit, reset and image and for \<open>button\<close>
  elements; a button without labels falls through.\<close>

definition step2e :: "namer \<Rightarrow> document \<Rightarrow> nat \<Rightarrow> accessibleNameOptions
    \<Rightarrow> accessibleNameOptions \<Rightarrow> nat list option \<Rightarrow> jsstring \<Rightarrow> traversal
    \<Rightarrow> (jsstring \<times> traversal) option" where
  "step2e rec d e options childOptions labelledBy role t =
     (let tag = tagName (elementAt d e);
          type = inputType (elementAt d e)
      in if role \<in> set (map js [''presentation'', ''none''])
         then step2f rec d e options childOptions role t
         else if tag = js ''INPUT'' \<and> type \<in> set (map js [''button'', ''submit'', ''reset''])
         then (let t1 = markVisited e t;
                   val = elementValue (elementAt d e)
               in if trim val \<noteq> [] then Some (val, t1)
                  else if type = js ''submit'' then Some (js ''Submit'', t1)
                  else if type = js ''reset'' then Some (js ''Reset'', t1)
                  else Some (attributeOrEmpty d e (js ''title''), t1))
         else if tag = js ''INPUT'' \<and> type = js ''image''
         then (let t1 = markVisited e t
               in if labelsOf d e \<noteq> [] \<and> embeddedInLabelledBy options = EmbeddedNone
                  then getAccessibleNameFromAssociatedLabels rec (labelsOf d e) options t1
                  else if trim (attributeOrEmpty d e (js ''alt'')) \<noteq> []
                  then Some (attributeOrEmpty d e (js ''alt''), t1)
                  else if trim (attributeOrEmpty d e (js ''title'')) \<noteq> []
                  then Some (attributeOrEmpty d e (js ''title''), t1)
                  else Some (js ''Submit'', t1))
         else if labelledBy = None \<and> tag = js ''BUTTON''
         then (let t1 = markVisited e t
               in if labelsOf d e \<noteq> []
                  then getAccessibleNameFromAssociatedLabels rec (labelsOf d e) options t1
                  else step2e_elements rec d e options childOptions labelledBy role t1)
         else step2e_elements rec d e options childOptions labelledBy role t)"

text \<open>Step 2d: a non-blank \<open>aria-label\<close>.\<close>

definition step2d :: "namer \<Rightarrow> document \<Rightarrow> nat \<Rightarrow> accessibleNameOptions
    \<Rightarrow> accessibleNameOptions \<Rightarrow> nat list option \<Rightarrow> jsstring \<Rightarrow> traversal
    \<Rightarrow> (jsstring \<times> traversal) option" where
  "step2d rec d e options childOptions labelledBy role t =
     (let ariaLabel = attributeOrEmpty d e (js ''aria-label'')
      in if trim ariaLabel \<noteq> [] then Some (ariaLabel, markVisited e t)
         else step2e rec d e options childOptions labelledBy role t)"

text \<open>Step 2c: a control embedded in a label takes its value as its name.\<close>

definition selectedOptionsOf :: "document \<Rightarrow> nat \<Rightarrow> jsstring \<Rightarrow> nat list" where
  "selectedOptionsOf d e role =
     (if tagName (elementAt d e) = js ''SELECT''
      then (let selected = elementsInDocument d (selectedOptions (elementAt d e));
                opts = elementsInDocument d (selectOptions (elementAt d e))
            in if selected = [] \<and> opts \<noteq> [] then [hd opts] else selected)
      else (let listbox = (if role = js ''combobox''
                           then find (\<lambda>x. getAriaRole d x = Some (js ''listbox''))
                                  (queryInAriaOwned d e anyElementSelector)
                           else Some e)
            in case listbox of
                 None \<Rightarrow> []
               | Some l \<Rightarrow> filter (\<lambda>x. getAriaRole d x = Some (js ''option''))
                             (queryInAriaOwned d l ariaSelectedTrueSelector)))"

definition step2c :: "namer \<Rightarrow> document \<Rightarrow> nat \<Rightarrow> accessibleNameOptions
    \<Rightarrow> accessibleNameOptions \<Rightarrow> nat list option \<Rightarrow> jsstring \<Rightarrow> traversal
    \<Rightarrow> (jsstring \<times> traversal) option" where
  "step2c rec d e options childOptions labelledBy role t =
     (let isOwnLabel = (e \<in> set (labelsOf d e));
          isOwnLabelledBy = (e \<in> set (case labelledBy of None \<Rightarrow> [] | Some refs \<Rightarrow> refs))
      in if (embeddedInLabel options \<noteq> EmbeddedNone \<or> embeddedInLabelledBy options \<noteq> EmbeddedNone)
            \<and> \<not> isOwnLabel \<and> \<not> isOwnLabelledBy
         then
           (if role = js ''textbox''
            then (if tagName (elementAt d e) = js ''INPUT'' \<or> tagName (elementAt d e) = js ''TEXTAREA''
                  then Some (elementValue (elementAt d e), markVisited e t)
                  else Some (textContent (elementAt d e), markVisited e t))
            else if role \<in> set (map js [''combobox'', ''listbox''])
            then (case mapNames (\<lambda>option. rec option childOptions) (selectedOptionsOf d e role)
                         (markVisited e t) of
                    None \<Rightarrow> None
                  | Some (names, t2) \<Rightarrow> Some (join (js '' '') names, t2))
            else if role \<in> set (map js [''progressbar'', ''scrollbar'', ''slider'', ''spinbutton'', ''meter''])
            then (if hasAttribute d e (js ''aria-valuetext'')
                  then Some (attributeOrEmpty d e (js ''aria-valuetext''), markVisited e t)
                  else if hasAttribute d e (js ''aria-valuenow'')
                  then Some (attributeOrEmpty d e (js ''aria-valuenow''), markVisited e t)
                  else Some (attributeOrEmpty d e (js ''value''), markVisited e t))
            else if role \<in> set (map js [''menu''])
            then Some ([], markVisited e t)
            else step2d rec d e options childOptions labelledBy role t)
         else step2d rec d e options childOptions labelledBy role t)"

text \<open>Step 2b: the elements that \<open>aria-labelledby\<close> names, unless the element is itself
  reached through such a reference.\<close>

definition step2b :: "namer \<Rightarrow> document \<Rightarrow> nat \<Rightarrow> accessibleNameOptions
    \<Rightarrow> accessibleNameOptions \<Rightarrow> traversal \<Rightarrow> (jsstring \<times> traversal) option" where
  "step2b rec d e options childOptions t =
     (let labelledBy = getAriaLabelledByElements d e
      in if embeddedInLabelledBy options = EmbeddedNone
         then (case mapNames (\<lambda>ref. rec ref (options\<lparr> embeddedInLabelledBy := EmbeddedSelf,
                                                        embeddedInTargetElement := EmbeddedNone,
                                                        embeddedInLabel := EmbeddedNone,
                                                        embeddedInTextAlternativeElement := False \<rparr>))
                       (case labelledBy of None \<Rightarrow> [] | Some refs \<Rightarrow> refs) t of
                 None \<Rightarrow> None
               | Some (names, t1) \<Rightarrow>
                   (let accessibleName = join (js '' '') names
                    in if accessibleName \<noteq> [] then Some (accessibleName, t1)
                       else step2c rec d e options childOptions labelledBy (roleOrEmpty d e) t1))
         else step2c rec d e options childOptions labelledBy (roleOrEmpty d e) t)"

text \<open>
  One call of \<open>getElementAccessibleNameInternal\<close>, with the function to call for the
  recursive calls as a parameter: the check of the visited set, the options for the
  children, step 2a, and the remaining steps.
\<close>

definition childOptionsOf :: "accessibleNameOptions \<Rightarrow> accessibleNameOptions" where
  "childOptionsOf options =
     options
       \<lparr> embeddedInLabel :=
           (if embeddedInLabel options = EmbeddedSelf then EmbeddedDescendant
            else embeddedInLabel options),
         embeddedInLabelledBy :=
           (if embeddedInLabelledBy options = EmbeddedSelf then EmbeddedDescendant
            else embeddedInLabelledBy options),
         embeddedInTargetElement :=
           (if embeddedInTargetElement options = EmbeddedSelf then EmbeddedDescendant
            else embeddedInTargetElement options) \<rparr>"

definition accessibleNameStep :: "namer \<Rightarrow> document \<Rightarrow> namer" where
  "accessibleNameStep rec d e options t =
     (if e \<in> set (visitedElements t) then Some ([], t)
      else
        (let childOptions = childOptionsOf options
         in if \<not> includeHidden options \<and> embeddedInLabelledBy options \<noteq> EmbeddedSelf
            then (case isElementHiddenForAria d e (hiddenCache t) of
                    (hidden, cache') \<Rightarrow>
                      if hidden then Some ([], markVisited e (t\<lparr> hiddenCache := cache' \<rparr>))
                      else step2b rec d e options childOptions (t\<lparr> hiddenCache := cache' \<rparr>))
            else step2b rec d e options childOptions t))"

text \<open>
  The recursion of \<open>getElementAccessibleNameInternal\<close>. The first argument bounds the depth
  of nested calls; a computation that would nest deeper has no result.
\<close>

primrec getElementAccessibleNameInternal :: "nat \<Rightarrow> document \<Rightarrow> namer" where
  "getElementAccessibleNameInternal 0 d = (\<lambda>e options t. None)"
| "getElementAccessibleNameInternal (Suc depth) d =
     accessibleNameStep (getElementAccessibleNameInternal depth d) d"

definition kNamingProhibitedRoles :: "jsstring list" where
  "kNamingProhibitedRoles = map js
     [''caption'', ''code'', ''definition'', ''deletion'', ''emphasis'', ''generic'',
      ''insertion'', ''mark'', ''paragraph'', ''presentation'', ''strong'', ''subscript'',
      ''suggestion'', ''superscript'', ''term'', ''time'']"

definition targetOptions :: "bool \<Rightarrow> accessibleNameOptions" where
  "targetOptions hidden =
     \<lparr> includeHidden = hidden, embeddedInLabelledBy = EmbeddedNone,
       embeddedInLabel = EmbeddedNone, embeddedInTextAlternativeElement = False,
       embeddedInTargetElement = EmbeddedSelf \<rparr>"

definition getElementAccessibleName ::
    "nat \<Rightarrow> document \<Rightarrow> nat \<Rightarrow> bool \<Rightarrow> ariaCaches \<Rightarrow> (jsstring \<times> ariaCaches) option" where
  "getElementAccessibleName depth d e hidden s =
     (let cache = (if hidden then cacheAccessibleNameHidden s else cacheAccessibleName s)
      in case cacheGet cache e of
           Some accessibleName \<Rightarrow> Some (accessibleName, s)
         | None \<Rightarrow>
             (let elementProhibitsNaming = (roleOrEmpty d e \<in> set kNamingProhibitedRoles)
              in case (if \<not> elementProhibitsNaming
                       then (case getElementAccessibleNameInternal depth d e (targetOptions hidden)
                                    \<lparr> visitedElements = [], hiddenCache = cacheIsHidden s \<rparr> of
                               None \<Rightarrow> None
                             | Some (name, t) \<Rightarrow> Some (normalizeAccessbileName name, hiddenCache t))
                       else Some ([], cacheIsHidden s)) of
                   None \<Rightarrow> None
                 | Some (accessibleName, hiddenStates) \<Rightarrow>
                     Some (accessibleName,
                           (if hidden
                            then s\<lparr> cacheAccessibleNameHidden := cacheSet cache e accessibleName,
                                    cacheIsHidden := hiddenStates \<rparr>
                            else s\<lparr> cacheAccessibleName := cacheSet cache e accessibleName,
                                    cacheIsHidden := hiddenStates \<rparr>))))"

section \<open>State property extractors\<close>

datatype checkedState = Checked bool | CheckedMixed | CheckedError

definition kAriaCheckedRoles :: "jsstring list" where
  "kAriaCheckedRoles = map js
     [''checkbox'', ''menuitemcheckbox'', ''option'', ''radio'', ''switch'', ''menuitemradio'',
      ''treeitem'']"

definition getChecked :: "document \<Rightarrow> nat \<Rightarrow> bool \<Rightarrow> checkedState" where
  "getChecked d e allowMixed =
     (if allowMixed \<and> tagName (elementAt d e) = js ''INPUT'' \<and> indeterminate (elementAt d e)
      then CheckedMixed
      else if tagName (elementAt d e) = js ''INPUT''
              \<and> inputType (elementAt d e) \<in> set (map js [''checkbox'', ''radio''])
      then Checked (checked (elementAt d e))
      else if roleOrEmpty d e \<in> set kAriaCheckedRoles
      then (let c = getAttribute d e (js ''aria-checked'')
            in if c = Some (js ''true'') then Checked True
               else if allowMixed \<and> c = Some (js ''mixed'') then CheckedMixed
               else Checked False)
      else CheckedError)"

definition getAriaChecked :: "document \<Rightarrow> nat \<Rightarrow> checkedState" where
  "getAriaChecked d e =
     (case getChecked d e True of CheckedError \<Rightarrow> Checked False | result \<Rightarrow> result)"

definition kAriaDisabledRoles :: "jsstring list" where
  "kAriaDisabledRoles = map js
     [''application'', ''button'', ''composite'', ''gridcell'', ''group'', ''input'', ''link'',
      ''menuitem'', ''scrollbar'', ''separator'', ''tab'', ''checkbox'', ''columnheader'',
      ''combobox'', ''grid'', ''listbox'', ''menu'', ''menubar'', ''menuitemcheckbox'',
      ''menuitemradio'', ''option'', ''radio'', ''radiogroup'', ''row'', ''rowheader'',
      ''searchbox'', ''select'', ''slider'', ''spinbutton'', ''switch'', ''tablist'', ''textbox'',
      ''toolbar'', ''tree'', ''treegrid'', ''treeitem'']"

function belongsToDisabledFieldSet :: "document \<Rightarrow> nat option \<Rightarrow> bool" where
  "belongsToDisabledFieldSet d element =
     (case element of
        None \<Rightarrow> False
      | Some e \<Rightarrow>
          if tagName (elementAt d e) = js ''FIELDSET'' \<and> hasAttribute d e (js ''disabled'')
          then True
          else belongsToDisabledFieldSet d (parentElement d e))"
  by pat_completeness auto
termination
  by (relation "measure (\<lambda>(d, x). case x of None \<Rightarrow> 0 | Some e \<Rightarrow> Suc e)")
     (auto dest: parentElement_less split: option.splits)

function hasExplicitAriaDisabled :: "document \<Rightarrow> nat option \<Rightarrow> bool" where
  "hasExplicitAriaDisabled d element =
     (case element of
        None \<Rightarrow> False
      | Some e \<Rightarrow>
          if roleOrEmpty d e \<in> set kAriaDisabledRoles
          then (let attribute = toLowerCase (attributeOrEmpty d e (js ''aria-disabled''))
                in if attribute = js ''true'' then True
                   else if attribute = js ''false'' then False
                   else hasExplicitAriaDisabled d (parentElementOrShadowHost d e))
          else hasExplicitAriaDisabled d (parentElementOrShadowHost d e))"
  by pat_completeness auto
termination
  by (relation "measure (\<lambda>(d, x). case x of None \<Rightarrow> 0 | Some e \<Rightarrow> Suc e)")
     (auto dest: parentElementOrShadowHost_less split: option.splits)

definition getAriaDisabled :: "document \<Rightarrow> nat \<Rightarrow> bool" where
  "getAriaDisabled d e =
     (let isNativeFormControl =
            (tagName (elementAt d e) \<in> set (map js
               [''BUTTON'', ''INPUT'', ''SELECT'', ''TEXTAREA'', ''OPTION'', ''OPTGROUP'']))
      in if isNativeFormControl
            \<and> (hasAttribute d e (js ''disabled'') \<or> belongsToDisabledFieldSet d (Some e))
         then True
         else hasExplicitAriaDisabled d (Some e))"

section \<open>The properties as the specification words them\<close>

text \<open>
  The specification has the explicit role computed by splitting the \<open>role\<close> attribute on
  white space and taking the first token that is a valid role.
\<close>

definition splitOnWhiteSpace :: "jsstring \<Rightarrow> jsstring list" where
  "splitOnWhiteSpace s = filter (\<lambda>token. token \<noteq> []) (splitWhere isWhiteSpace s)"

definition firstValidRoleToken :: "document \<Rightarrow> nat \<Rightarrow> jsstring option" where
  "firstValidRoleToken d e =
     find (\<lambda>role. role \<in> set validRoles) (splitOnWhiteSpace (attributeOrEmpty d e (js ''role'')))"

text \<open>
  The pieces of a string between its U+0020 characters: a non-empty list of strings
  without U+0020 that gives the string back when joined with U+0020.
\<close>

definition spacePieces :: "jsstring \<Rightarrow> jsstring list \<Rightarrow> bool" where
  "spacePieces s pieces =
     (pieces \<noteq> [] \<and> join [32] pieces = s \<and> (\<forall>piece \<in> set pieces. 32 \<notin> set piece))"

text \<open>The element and its ancestors in the light tree, nearest first: the walk along
  \<open>parentElement\<close>, which ends at a shadow root.\<close>

function lightAncestorsOrSelf :: "document \<Rightarrow> nat \<Rightarrow> nat list" where
  "lightAncestorsOrSelf d e =
     e # (case parentElement d e of None \<Rightarrow> [] | Some p \<Rightarrow> lightAncestorsOrSelf d p)"
  by pat_completeness auto
termination
  by (relation "measure (\<lambda>(d, e). e)") (auto dest: parentElement_less)

text \<open>The element and its ancestors, nearest first, crossing shadow boundaries.\<close>

function ancestorsOrSelf :: "document \<Rightarrow> nat \<Rightarrow> nat list" where
  "ancestorsOrSelf d e =
     e # (case parentElementOrShadowHost d e of None \<Rightarrow> [] | Some p \<Rightarrow> ancestorsOrSelf d p)"
  by pat_completeness auto
termination
  by (relation "measure (\<lambda>(d, e). e)") (auto dest: parentElementOrShadowHost_less)

text \<open>
  The specification has \<open>aria-disabled\<close> decided by the nearest node, among the element
  and its ancestors, whose attribute is exactly \<open>true\<close> or \<open>false\<close>.
\<close>

definition nearestAriaDisabled :: "document \<Rightarrow> nat \<Rightarrow> bool" where
  "nearestAriaDisabled d e =
     (case find (\<lambda>x. getAttribute d x (js ''aria-disabled'') \<in> set (map (Some \<circ> js) [''true'', ''false'']))
             (ancestorsOrSelf d e) of
        None \<Rightarrow> False
      | Some x \<Rightarrow> getAttribute d x (js ''aria-disabled'') = Some (js ''true''))"

text \<open>
  What the source lets decide: a node whose own role is in \<open>kAriaDisabledRoles\<close> and whose
  \<open>aria-disabled\<close> attribute is \<open>true\<close> or \<open>false\<close> in any letter case.
\<close>

definition ariaDisabledDecides :: "document \<Rightarrow> nat \<Rightarrow> bool" where
  "ariaDisabledDecides d x =
     (roleOrEmpty d x \<in> set kAriaDisabledRoles
      \<and> toLowerCase (attributeOrEmpty d x (js ''aria-disabled'')) \<in> set (map js [''true'', ''false'']))"

text \<open>
  The specification calls a name normalized when it holds no two consecutive white space
  characters, no carriage return, no non-breaking space, and neither starts nor ends with
  white space. The predicate below leaves the carriage return out: it is white space,
  so it cannot stand next to other white space, but a single one may remain.
\<close>

fun noAdjacentWhiteSpace :: "jsstring \<Rightarrow> bool" where
  "noAdjacentWhiteSpace [] = True"
| "noAdjacentWhiteSpace [c] = True"
| "noAdjacentWhiteSpace (c # c' # cs) =
     (\<not> (isWhiteSpace c \<and> isWhiteSpace c') \<and> noAdjacentWhiteSpace (c' # cs))"

definition trimmed :: "jsstring \<Rightarrow> bool" where
  "trimmed s = (s = [] \<or> (\<not> isWhiteSpace (hd s) \<and> \<not> isWhiteSpace (last s)))"

definition normalized :: "jsstring \<Rightarrow> bool" where
  "normalized s = (noAdjacentWhiteSpace s \<and> trimmed s \<and> 160 \<notin> set s)"

text \<open>The names held in the two caches of accessible names.\<close>

definition cachedNames :: "ariaCaches \<Rightarrow> jsstring list" where
  "cachedNames s =
     (case cacheAccessibleName s of None \<Rightarrow> [] | Some m \<Rightarrow> map snd m)
     @ (case cacheAccessibleNameHidden s of None \<Rightarrow> [] | Some m \<Rightarrow> map snd m)"

definition cachesNormalized :: "ariaCaches \<Rightarrow> bool" where
  "cachesNormalized s = list_all normalized (cachedNames s)"

section \<open>Invariants of the traversal\<close>

text \<open>
  The facts that the termination argument keeps track of. A traversal is within the
  document, above a set of elements, when its visited elements are elements of the
  document and include the set; a later traversal extends an earlier one when it has
  visited at least the same elements and its cache of hidden states is defined exactly
  when the earlier one is. A call returns when it has a result whose traversal extends
  the one it started from and is within the document.
\<close>

definition within :: "document \<Rightarrow> nat set \<Rightarrow> traversal \<Rightarrow> bool" where
  "within d X t = (X \<subseteq> set (visitedElements t) \<and> set (visitedElements t) \<subseteq> {..<length d})"

definition extends :: "traversal \<Rightarrow> traversal \<Rightarrow> bool" where
  "extends t t' =
     (set (visitedElements t) \<subseteq> set (visitedElements t')
      \<and> (hiddenCache t' = None) = (hiddenCache t = None))"

definition returns :: "document \<Rightarrow> nat set \<Rightarrow> traversal \<Rightarrow> ('a \<times> traversal) option \<Rightarrow> bool" where
  "returns d X t r = (case r of None \<Rightarrow> False | Some (x, t') \<Rightarrow> extends t t' \<and> within d X t')"

definition recursionReturns :: "document \<Rightarrow> nat set \<Rightarrow> (accessibleNameOptions \<Rightarrow> bool) \<Rightarrow> namer \<Rightarrow> bool" where
  "recursionReturns d X P rec =
     (\<forall>e options t. e < length d \<longrightarrow> P options \<longrightarrow> within d X t \<longrightarrow> returns d X t (rec e options t))"

definition nodesWithin :: "document \<Rightarrow> node list \<Rightarrow> bool" where
  "nodesWithin d ns = (\<forall>c. ElementNode c \<in> set ns \<longrightarrow> c < length d)"

section \<open>Pass scopes\<close>

text \<open>
  What a client does with the module between two changes of the tree is a sequence of
  calls of its exported functions: \<open>beginAriaCaches\<close>, \<open>endAriaCaches\<close>, and queries for the
  accessible name or the hidden state of an element. The name is computed with the depth
  that suffices for every element of the document.
\<close>

datatype passOperation =
    BeginAriaCaches
  | EndAriaCaches
  | AccessibleName document nat bool
  | HiddenForAria document nat

fun runOperation :: "passOperation \<Rightarrow> ariaCaches \<Rightarrow> ariaCaches option" where
  "runOperation BeginAriaCaches s = Some (beginAriaCaches s)"
| "runOperation EndAriaCaches s = Some (endAriaCaches s)"
| "runOperation (AccessibleName d e hidden) s =
     map_option snd (getElementAccessibleName (2 * length d + 2) d e hidden s)"
| "runOperation (HiddenForAria d e) s =
     Some (s\<lparr> cacheIsHidden := snd (isElementHiddenForAria d e (cacheIsHidden s)) \<rparr>)"

fun runPass :: "passOperation list \<Rightarrow> ariaCaches \<Rightarrow> ariaCaches option" where
  "runPass [] s = Some s"
| "runPass (operation # operations) s =
     (case runOperation operation s of None \<Rightarrow> None | Some s' \<Rightarrow> runPass operations s')"

text \<open>
  A sequence of calls is well bracketed, starting from a given count of open scopes, when
  it closes no scope that is not open, and asks for names of elements of the document
  only.
\<close>

fun wellBracketed :: "int \<Rightarrow> passOperation list \<Rightarrow> bool" where
  "wellBracketed n [] = True"
| "wellBracketed n (BeginAriaCaches # operations) = wellBracketed (n + 1) operations"
| "wellBracketed n (EndAriaCaches # operations) = (0 < n \<and> wellBracketed (n - 1) operations)"
| "wellBracketed n (AccessibleName d e hidden # operations) = (e < length d \<and> wellBracketed n operations)"
| "wellBracketed n (HiddenForAria d e # operations) = wellBracketed n operations"

text \<open>
  A sequence of calls leaves the scope open, starting from a given count of open scopes,
  when no \<open>endAriaCaches\<close> in it closes the last open scope.
\<close>

fun scopeStaysOpen :: "int \<Rightarrow> passOperation list \<Rightarrow> bool" where
  "scopeStaysOpen n [] = True"
| "scopeStaysOpen n (BeginAriaCaches # operations) = scopeStaysOpen (n + 1) operations"
| "scopeStaysOpen n (EndAriaCaches # operations) = (1 < n \<and> scopeStaysOpen (n - 1) operations)"
| "scopeStaysOpen n (AccessibleName d e hidden # operations) = scopeStaysOpen n operations"
| "scopeStaysOpen n (HiddenForAria d e # operations) = scopeStaysOpen n operations"

text \<open>
  The invariant of the scopes: the counter is not negative, the three caches are absent
  when it is zero and present when it is positive.
\<close>

definition cachesDefined :: "ariaCaches \<Rightarrow> bool" where
  "cachesDefined s =
     (cacheAccessibleName s \<noteq> None \<and> cacheAccessibleNameHidden s \<noteq> None \<and> cacheIsHidden s \<noteq> None)"

definition cachesUndefined :: "ariaCaches \<Rightarrow> bool" where
  "cachesUndefined s =
     (cacheAccessibleName s = None \<and> cacheAccessibleNameHidden s = None \<and> cacheIsHidden s = None)"

definition scopeInvariant :: "ariaCaches \<Rightarrow> bool" where
  "scopeInvariant s =
     (0 \<le> cachesCounter s
      \<and> (if cachesCounter s = 0 then cachesUndefined s else cachesDefined s))"

section \<open>The rule for tables\<close>



section \<open>Example documents\<close>

text \<open>Three \<open>div\<close> elements: \<open>role="button<TAB>link"\<close>, \<open>role="widget  link button"\<close> and
  \<open>role="<TAB>link<FF> foo"\<close>.\<close>

definition tabSeparatedRoles :: document where
  "tabSeparatedRoles =
     [detachedElement\<lparr> tagName := js ''DIV'', parentNodeOf := DocumentParent,
        attributes := [(js ''role'', js ''button'' @ [9] @ js ''link'')] \<rparr>,
      detachedElement\<lparr> tagName := js ''DIV'', parentNodeOf := DocumentParent,
        attributes := [(js ''role'', js ''widget  link button'')] \<rparr>,
      detachedElement\<lparr> tagName := js ''DIV'', parentNodeOf := DocumentParent,
        attributes := [(js ''role'', [9] @ js ''link'' @ [12] @ js '' foo'')] \<rparr>]"

text \<open>
  A checked native checkbox with \<open>aria-checked="mixed"\<close>; a text input whose
  \<open>indeterminate\<close> flag is set; a \<open>div\<close> with \<open>role="checkbox"\<close> and
  \<open>aria-checked="mixed"\<close>; a plain \<open>div\<close>; a native checkbox that is not checked and
  whose \<open>indeterminate\<close> flag is set; an element whose tag name is \<open>OPT<U+0131>ON\<close>.
\<close>

definition checkboxDocument :: document where
  "checkboxDocument =
     [detachedElement\<lparr> tagName := js ''INPUT'', inputType := js ''checkbox'', checked := True,
        attributes := [(js ''aria-checked'', js ''mixed'')], parentNodeOf := DocumentParent \<rparr>,
      detachedElement\<lparr> tagName := js ''INPUT'', inputType := js ''text'', indeterminate := True,
        parentNodeOf := DocumentParent \<rparr>,
      detachedElement\<lparr> tagName := js ''DIV'', parentNodeOf := DocumentParent,
        attributes := [(js ''role'', js ''checkbox''), (js ''aria-checked'', js ''mixed'')] \<rparr>,
      detachedElement\<lparr> tagName := js ''DIV'', parentNodeOf := DocumentParent \<rparr>,
      detachedElement\<lparr> tagName := js ''INPUT'', inputType := js ''checkbox'',
        indeterminate := True, parentNodeOf := DocumentParent \<rparr>,
      detachedElement\<lparr> tagName := js ''OPT'' @ [305] @ js ''ON'', parentNodeOf := DocumentParent \<rparr>]"

text \<open>A list \<open><ul role="presentation"><li></li></ul>\<close>.\<close>

definition presentationList :: document where
  "presentationList =
     [detachedElement\<lparr> tagName := js ''UL'', parentNodeOf := DocumentParent,
        attributes := [(js ''role'', js ''presentation'')], childNodes := [ElementNode 1] \<rparr>,
      detachedElement\<lparr> tagName := js ''LI'', parentNodeOf := ElementParent 0 \<rparr>]"

text \<open>
  A fieldset with the \<open>disabled\<close> attribute around a \<open>div\<close> around a text input; a
  \<open>div\<close> with \<open>role="group"\<close> and \<open>aria-disabled="true"\<close> that hosts a shadow root with
  two text inputs, the second with \<open>aria-disabled="false"\<close>; a \<open>div\<close> without a role but
  with \<open>aria-disabled="true"\<close> around a button; a fieldset with the \<open>disabled\<close> attribute
  around a \<open>div\<close> that hosts a shadow root with a text input.
\<close>

definition disabledDocument :: document where
  "disabledDocument =
     [detachedElement\<lparr> tagName := js ''FIELDSET'', parentNodeOf := DocumentParent,
        attributes := [(js ''disabled'', [])], childNodes := [ElementNode 1] \<rparr>,
      detachedElement\<lparr> tagName := js ''DIV'', parentNodeOf := ElementParent 0,
        childNodes := [ElementNode 2] \<rparr>,
      detachedElement\<lparr> tagName := js ''INPUT'', inputType := js ''text'',
        parentNodeOf := ElementParent 1 \<rparr>,
      detachedElement\<lparr> tagName := js ''DIV'', parentNodeOf := DocumentParent,
        attributes := [(js ''role'', js ''group''), (js ''aria-disabled'', js ''true'')],
        shadowRoot := Some [ElementNode 4, ElementNode 10] \<rparr>,
      detachedElement\<lparr> tagName := js ''INPUT'', inputType := js ''text'',
        parentNodeOf := ShadowRootParent 3 \<rparr>,
      detachedElement\<lparr> tagName := js ''DIV'', parentNodeOf := DocumentParent,
        attributes := [(js ''aria-disabled'', js ''true'')], childNodes := [ElementNode 6] \<rparr>,
      detachedElement\<lparr> tagName := js ''BUTTON'', parentNodeOf := ElementParent 5 \<rparr>,
      detachedElement\<lparr> tagName := js ''FIELDSET'', parentNodeOf := DocumentParent,
        attributes := [(js ''disabled'', [])], childNodes := [ElementNode 8] \<rparr>,
      detachedElement\<lparr> tagName := js ''DIV'', parentNodeOf := ElementParent 7,
        shadowRoot := Some [ElementNode 9] \<rparr>,
      detachedElement\<lparr> tagName := js ''INPUT'', inputType := js ''text'',
        parentNodeOf := ShadowRootParent 8 \<rparr>,
      detachedElement\<lparr> tagName := js ''INPUT'', inputType := js ''text'',
        attributes := [(js ''aria-disabled'', js ''false'')],
        parentNodeOf := ShadowRootParent 3 \<rparr>]"

text \<open>
  A reference cycle: \<open><div id="outer" aria-labelledby="inner"><span id="inner"
  aria-labelledby="outer">Hello</span></div>\<close>. The \<open>aria-labelledby\<close> of the span
  names its parent, whose \<open>aria-labelledby\<close> and whose content lead back to the span.
\<close>

definition cyclicDocument :: document where
  "cyclicDocument =
     [detachedElement\<lparr> tagName := js ''DIV'', parentNodeOf := DocumentParent,
        attributes := [(js ''id'', js ''outer''), (js ''aria-labelledby'', js ''inner'')],
        childNodes := [ElementNode 1],
        computedStyle := Some \<lparr> display = js ''block'', visibilityVisible = True \<rparr> \<rparr>,
      detachedElement\<lparr> tagName := js ''SPAN'', parentNodeOf := ElementParent 0,
        attributes := [(js ''id'', js ''inner''), (js ''aria-labelledby'', js ''outer'')],
        childNodes := [TextNode (js ''Hello'') False True],
        computedStyle := Some \<lparr> display = js ''inline'', visibilityVisible = True \<rparr> \<rparr>]"

text \<open>
  Two buttons named by \<open>aria-label\<close>: one label has leading blanks, a CR-LF pair,
  a non-breaking space and a trailing blank; the other is \<open>a<CR>b\<close>.
\<close>

definition labelDocument :: document where
  "labelDocument =
     [detachedElement\<lparr> tagName := js ''BUTTON'', parentNodeOf := DocumentParent,
        attributes := [(js ''aria-label'', js ''  Save'' @ [13, 10] @ js ''  the'' @ [160] @ js ''file '')],
        computedStyle := Some \<lparr> display = js ''inline-block'', visibilityVisible = True \<rparr> \<rparr>,
      detachedElement\<lparr> tagName := js ''BUTTON'', parentNodeOf := DocumentParent,
        attributes := [(js ''aria-label'', [97, 13, 98])],
        computedStyle := Some \<lparr> display = js ''inline-block'', visibilityVisible = True \<rparr> \<rparr>]"



text \<open>A button with \<open>aria-hidden="true"\<close> and \<open>aria-label="Close"\<close>.\<close>

definition hiddenDocument :: document where
  "hiddenDocument =
     [detachedElement\<lparr> tagName := js ''BUTTON'', parentNodeOf := DocumentParent,
        attributes := [(js ''aria-hidden'', js ''true''), (js ''aria-label'', js ''Close'')],
        computedStyle := Some \<lparr> display = js ''inline-block'', visibilityVisible = True \<rparr> \<rparr>]"

section \<open>Evaluation on concrete documents\<close>

text \<open>
  The equations of the functions that walk the tree are unfolded where a proof asks for
  them, and not by default.
\<close>

declare closestCrossShadow.simps [simp del] closest.simps [simp del]
  enclosingShadowRootOrDocument.simps [simp del] inheritPresentation.simps [simp del]
  belongsToDisplayNoneOrAriaHiddenOrNonSlotted.simps [simp del]
  isElementHiddenForAria.simps [simp del] isDescendantOf.simps [simp del]
  belongsToDisabledFieldSet.simps [simp del] hasExplicitAriaDisabled.simps [simp del]
  ancestorsOrSelf.simps [simp del] lightAncestorsOrSelf.simps [simp del]

lemmas walk_simps = closestCrossShadow.simps closest.simps
  enclosingShadowRootOrDocument.simps inheritPresentation.simps
  belongsToDisplayNoneOrAriaHiddenOrNonSlotted.simps
  isElementHiddenForAria.simps isDescendantOf.simps
  belongsToDisabledFieldSet.simps hasExplicitAriaDisabled.simps ancestorsOrSelf.simps
  lightAncestorsOrSelf.simps

lemmas string_defs = js_def trim_def split_def isWhiteSpace_def toUpperCase_def toLowerCase_def
  upperCaseUnit_def lowerCaseUnit_def kUpperCaseSpecial_def kLowerCaseSpecial_def

lemmas dom_defs = elementAt_def getAttribute_def hasAttribute_def attributeOrEmpty_def
  parentElement_def parentElementOrShadowHost_def detachedElement_def

lemma validRoles_iff: "r \<in> set validRoles \<longleftrightarrow> r \<in> set allRoles \<and> r \<notin> set abstractRoles"
  by (auto simp: validRoles_def)

lemmas role_defs = getAriaRole_def roleOrEmpty_def getExplicitAriaRole_def getImplicitAriaRole_def
  hasPresentationConflictResolution_def hasGlobalAriaAttribute_def kGlobalAriaAttributes_def
  validRoles_iff allRoles_def abstractRoles_def kImplicitRoleByTagName_def
  kPresentationInheritanceParents_def inputRole_def cellRole_def getIdRefs_def

section \<open>The explicit role\<close>

lemma splitWhere_not_Nil: "splitWhere p s \<noteq> []"
  by (induction s) (auto split: list.splits)

lemma splitWhere_cong: "(\<And>c. c \<in> set s \<Longrightarrow> p c = q c) \<Longrightarrow> splitWhere p s = splitWhere q s"
  by (induction s) (auto split: list.splits)

lemma splitWhere_pieces: "w \<in> set (splitWhere p s) \<Longrightarrow> c \<in> set w \<Longrightarrow> \<not> p c"
proof (induction s arbitrary: w)
  case Nil
  then show ?case by simp
next
  case (Cons a s)
  show ?case
  proof (cases "p a")
    case True
    with Cons show ?thesis by auto
  next
    case False
    obtain v vs where sp: "splitWhere p s = v # vs"
      using splitWhere_not_Nil[of p s] by (cases "splitWhere p s") auto
    with False Cons.prems have "w = a # v \<or> w \<in> set vs" by auto
    then show ?thesis
    proof
      assume "w = a # v"
      with Cons.prems(2) have "c = a \<or> c \<in> set v" by auto
      then show ?thesis using False Cons.IH[of v] sp by auto
    next
      assume "w \<in> set vs"
      then show ?thesis using Cons.IH[of w] sp Cons.prems(2) by auto
    qed
  qed
qed

lemma join_Cons: "ps \<noteq> [] \<Longrightarrow> join sep (p # ps) = p @ sep @ join sep ps"
  by (cases ps) auto

lemma join_splitWhere: "join [sep] (splitWhere (\<lambda>c. c = sep) s) = s"
proof (induction s)
  case Nil
  then show ?case by simp
next
  case (Cons a s)
  obtain v vs where sp: "splitWhere (\<lambda>c. c = sep) s = v # vs"
    using splitWhere_not_Nil[of "\<lambda>c. c = sep" s] by (cases "splitWhere (\<lambda>c. c = sep) s") auto
  show ?case
  proof (cases "a = sep")
    case True
    then show ?thesis using Cons sp by (simp add: join_Cons)
  next
    case False
    then show ?thesis using Cons sp by (cases vs) auto
  qed
qed

lemma splitWhere_piece:
  "\<forall>c \<in> set p. \<not> P c \<Longrightarrow> splitWhere P p = [p]"
  by (induction p) auto

lemma splitWhere_append:
  "\<forall>c \<in> set p. \<not> P c \<Longrightarrow> P s \<Longrightarrow> splitWhere P (p @ s # rest) = p # splitWhere P rest"
proof (induction p)
  case Nil
  then show ?case by simp
next
  case (Cons a p)
  then show ?case by simp
qed

lemma splitWhere_join:
  "ps \<noteq> [] \<Longrightarrow> \<forall>p \<in> set ps. sep \<notin> set p
     \<Longrightarrow> splitWhere (\<lambda>c. c = sep) (join [sep] ps) = ps"
proof (induction ps)
  case Nil
  then show ?case by simp
next
  case (Cons p ps)
  have p: "\<forall>c \<in> set p. \<not> c = sep" using Cons.prems(2) by auto
  show ?case
  proof (cases "ps = []")
    case True
    then show ?thesis using p by (simp add: splitWhere_piece)
  next
    case False
    then have "splitWhere (\<lambda>c. c = sep) (join [sep] ps) = ps"
      using Cons by simp
    then show ?thesis
      using False splitWhere_append[of p "\<lambda>c. c = sep" sep "join [sep] ps"] p
      by (simp add: join_Cons)
  qed
qed

lemma spacePieces_split: "spacePieces s (split 32 s)"
  using splitWhere_pieces[of _ "\<lambda>c. c = 32" s]
  by (auto simp: spacePieces_def split_def splitWhere_not_Nil join_splitWhere)

lemma spacePieces_unique: "spacePieces s ps \<Longrightarrow> split 32 s = ps"
  using splitWhere_join[of ps 32] by (auto simp: spacePieces_def split_def)

lemma trim_no_white_space: "(\<And>c. c \<in> set w \<Longrightarrow> \<not> isWhiteSpace c) \<Longrightarrow> trim w = w"
proof -
  assume h: "\<And>c. c \<in> set w \<Longrightarrow> \<not> isWhiteSpace c"
  have a: "dropWhile isWhiteSpace w = w" using h by (cases w) auto
  have b: "dropWhile isWhiteSpace (rev w) = rev w"
    using h by (cases "rev w") (auto simp: rev_eq_Cons_iff)
  show ?thesis by (simp add: trim_def a b)
qed

lemma find_filter_weaker: "(\<And>x. P x \<Longrightarrow> Q x) \<Longrightarrow> find P (filter Q xs) = find P xs"
  by (induction xs) auto

lemma find_Some_holds: "find P xs = Some x \<Longrightarrow> P x"
  by (induction xs) (auto split: if_splits)

lemma empty_not_role: "[] \<notin> set allRoles"
  by (simp add: allRoles_def js_def)

text \<open>
  C4. The source splits the \<open>role\<close> attribute at U+0020 only and trims each piece. So,
  with the pieces of the value between its U+0020 characters: the explicit role is \<open>r\<close>
  exactly when \<open>r\<close> is a valid role and is what trimming leaves of the first piece that
  trimming turns into a valid role; and there is no explicit role exactly when trimming
  turns no piece into a valid role. The value always has such pieces. Where the only
  white space of the value is U+0020, the explicit role is the first
  white-space-separated token that is a valid role; and whatever the value, the explicit
  role is a role of the taxonomy that is not abstract.
\<close>

theorem getExplicitAriaRole_first_valid_token:
  "(\<forall>pieces. spacePieces (attributeOrEmpty d e (js ''role'')) pieces \<longrightarrow>
       (\<forall>r. getExplicitAriaRole d e = Some r \<longleftrightarrow>
              (\<exists>i < length pieces. trim (pieces ! i) = r \<and> r \<in> set validRoles
                   \<and> (\<forall>j < i. trim (pieces ! j) \<notin> set validRoles)))
       \<and> (getExplicitAriaRole d e = None \<longleftrightarrow> (\<forall>piece \<in> set pieces. trim piece \<notin> set validRoles)))
   \<and> (\<exists>pieces. spacePieces (attributeOrEmpty d e (js ''role'')) pieces)
   \<and> ((\<forall>c \<in> set (attributeOrEmpty d e (js ''role'')). isWhiteSpace c \<longrightarrow> c = 32)
      \<longrightarrow> getExplicitAriaRole d e = firstValidRoleToken d e)
   \<and> (\<forall>r. getExplicitAriaRole d e = Some r \<longrightarrow> r \<in> set allRoles \<and> r \<notin> set abstractRoles)"
proof (intro conjI impI allI)
  fix r
  assume "getExplicitAriaRole d e = Some r"
  then have "r \<in> set validRoles"
    unfolding getExplicitAriaRole_def Let_def by (rule find_Some_holds)
  then show "r \<in> set allRoles" and "r \<notin> set abstractRoles"
    by (simp_all add: validRoles_iff)
next
  show "\<exists>pieces. spacePieces (attributeOrEmpty d e (js ''role'')) pieces"
    using spacePieces_split by blast
next
  fix pieces r
  assume "spacePieces (attributeOrEmpty d e (js ''role'')) pieces"
  then have pieces: "split 32 (attributeOrEmpty d e (js ''role'')) = pieces"
    by (rule spacePieces_unique)
  show "getExplicitAriaRole d e = Some r \<longleftrightarrow>
       (\<exists>i < length pieces. trim (pieces ! i) = r \<and> r \<in> set validRoles
            \<and> (\<forall>j < i. trim (pieces ! j) \<notin> set validRoles))"
    by (auto simp: getExplicitAriaRole_def pieces find_Some_iff)
  show "getExplicitAriaRole d e = None \<longleftrightarrow> (\<forall>piece \<in> set pieces. trim piece \<notin> set validRoles)"
    by (auto simp: getExplicitAriaRole_def pieces find_None_iff)
next
  let ?v = "attributeOrEmpty d e (js ''role'')"
  assume only: "\<forall>c \<in> set ?v. isWhiteSpace c \<longrightarrow> c = 32"
  have sp32: "isWhiteSpace 32" by (simp add: isWhiteSpace_def)
  have same: "splitWhere (\<lambda>c. c = 32) ?v = splitWhere isWhiteSpace ?v"
    by (rule splitWhere_cong) (use only sp32 in auto)
  have "map trim (splitWhere isWhiteSpace ?v) = splitWhere isWhiteSpace ?v"
    by (rule map_idI) (use splitWhere_pieces[of _ isWhiteSpace ?v] in \<open>auto intro: trim_no_white_space\<close>)
  then have "getExplicitAriaRole d e
      = find (\<lambda>role. role \<in> set validRoles) (splitWhere isWhiteSpace ?v)"
    by (simp add: getExplicitAriaRole_def split_def same)
  also have "\<dots> = firstValidRoleToken d e"
    unfolding firstValidRoleToken_def splitOnWhiteSpace_def
    by (rule find_filter_weaker[symmetric]) (use empty_not_role validRoles_iff in auto)
  finally show "getExplicitAriaRole d e = firstValidRoleToken d e" .
qed

lemma tabSeparatedRoles_values:
  "attributeOrEmpty tabSeparatedRoles 1 (js ''role'') = js ''widget  link button''"
  "attributeOrEmpty tabSeparatedRoles 2 (js ''role'') = [9] @ js ''link'' @ [12] @ js '' foo''"
  by (simp_all add: tabSeparatedRoles_def dom_defs)

theorem getExplicitAriaRole_first_valid_token_witness:
  "attributeOrEmpty tabSeparatedRoles 1 (js ''role'') = js ''widget  link button''
   \<and> getExplicitAriaRole tabSeparatedRoles 1 = Some (js ''link'')
   \<and> firstValidRoleToken tabSeparatedRoles 1 = Some (js ''link'')
   \<and> attributeOrEmpty tabSeparatedRoles 2 (js ''role'') = [9] @ js ''link'' @ [12] @ js '' foo''
   \<and> spacePieces (attributeOrEmpty tabSeparatedRoles 2 (js ''role'')) [[9] @ js ''link'' @ [12], js ''foo'']
   \<and> getExplicitAriaRole tabSeparatedRoles 2 = Some (js ''link'')"
proof -
  have a: "\<forall>c \<in> set (attributeOrEmpty tabSeparatedRoles 1 (js ''role'')). isWhiteSpace c \<longrightarrow> c = 32"
    by (simp add: tabSeparatedRoles_def string_defs dom_defs)
  have b: "firstValidRoleToken tabSeparatedRoles 1 = Some (js ''link'')"
    by (simp add: firstValidRoleToken_def splitOnWhiteSpace_def
      tabSeparatedRoles_def string_defs dom_defs validRoles_iff allRoles_def abstractRoles_def)
  have c: "spacePieces (attributeOrEmpty tabSeparatedRoles 2 (js ''role''))
      [[9] @ js ''link'' @ [12], js ''foo'']"
    unfolding tabSeparatedRoles_values by (simp add: spacePieces_def js_def)
  have d: "trim ([9] @ js ''link'' @ [12]) = js ''link''" "js ''link'' \<in> set validRoles"
    by (simp_all add: string_defs validRoles_iff allRoles_def abstractRoles_def)
  have e: "\<exists>i < length [[9] @ js ''link'' @ [12], js ''foo''].
      trim ([[9] @ js ''link'' @ [12], js ''foo''] ! i) = js ''link'' \<and> js ''link'' \<in> set validRoles
        \<and> (\<forall>j < i. trim ([[9] @ js ''link'' @ [12], js ''foo''] ! j) \<notin> set validRoles)"
    using d by (intro exI[of _ 0]) simp
  have f: "getExplicitAriaRole tabSeparatedRoles 2 = Some (js ''link'')"
    using getExplicitAriaRole_first_valid_token[of tabSeparatedRoles 2] c e by blast
  show ?thesis
    using getExplicitAriaRole_first_valid_token[of tabSeparatedRoles 1] a b c f
      tabSeparatedRoles_values
    by simp
qed

theorem getExplicitAriaRole_whitespace_counterexample:
  "firstValidRoleToken tabSeparatedRoles 0 = Some (js ''button'')
   \<and> getExplicitAriaRole tabSeparatedRoles 0 = None"
  by (simp add: firstValidRoleToken_def splitOnWhiteSpace_def getExplicitAriaRole_def
      tabSeparatedRoles_def string_defs dom_defs validRoles_iff allRoles_def abstractRoles_def)

section \<open>The checked state\<close>

text \<open>
  C8. The native state comes first. An \<open>INPUT\<close> element whose \<open>indeterminate\<close> flag is set
  reports mixed when mixed values are requested, whatever its type. Otherwise an \<open>INPUT\<close>
  of type checkbox or radio reports its own \<open>checked\<close> flag, whatever \<open>aria-checked\<close> says.
  For the elements that neither rule covers: with a role of \<open>kAriaCheckedRoles\<close>, the
  result is true for \<open>aria-checked="true"\<close>, mixed for \<open>aria-checked="mixed"\<close> when mixed
  values are requested, and false for every other or missing value; so with role
  checkbox and \<open>aria-checked="mixed"\<close> it is mixed when mixed values are requested and
  false when they are not. With a role outside the list the result is the sentinel.
\<close>

theorem getChecked_mixed_and_sentinel:
  "(tagName (elementAt d e) = js ''INPUT'' \<and> indeterminate (elementAt d e)
      \<longrightarrow> getChecked d e True = CheckedMixed)
   \<and> (tagName (elementAt d e) = js ''INPUT''
        \<and> inputType (elementAt d e) \<in> set (map js [''checkbox'', ''radio''])
        \<and> \<not> (allowMixed \<and> indeterminate (elementAt d e))
      \<longrightarrow> getChecked d e allowMixed = Checked (checked (elementAt d e)))
   \<and> (\<not> (allowMixed \<and> tagName (elementAt d e) = js ''INPUT'' \<and> indeterminate (elementAt d e))
        \<and> \<not> (tagName (elementAt d e) = js ''INPUT''
               \<and> inputType (elementAt d e) \<in> set (map js [''checkbox'', ''radio'']))
      \<longrightarrow> getChecked d e allowMixed =
            (if roleOrEmpty d e \<in> set kAriaCheckedRoles
             then (if getAttribute d e (js ''aria-checked'') = Some (js ''true'') then Checked True
                   else if allowMixed \<and> getAttribute d e (js ''aria-checked'') = Some (js ''mixed'')
                   then CheckedMixed
                   else Checked False)
             else CheckedError))
   \<and> (roleOrEmpty d e = js ''checkbox''
        \<and> getAttribute d e (js ''aria-checked'') = Some (js ''mixed'')
        \<and> \<not> (tagName (elementAt d e) = js ''INPUT''
               \<and> inputType (elementAt d e) \<in> set (map js [''checkbox'', ''radio'']))
      \<longrightarrow> getChecked d e True = CheckedMixed \<and> getChecked d e False = Checked False)
   \<and> (roleOrEmpty d e \<notin> set kAriaCheckedRoles
        \<and> \<not> (tagName (elementAt d e) = js ''INPUT''
               \<and> inputType (elementAt d e) \<in> set (map js [''checkbox'', ''radio'']))
        \<and> \<not> (allowMixed \<and> tagName (elementAt d e) = js ''INPUT'' \<and> indeterminate (elementAt d e))
      \<longrightarrow> getChecked d e allowMixed = CheckedError)"
proof -
  have mixed_not_true: "js ''mixed'' \<noteq> js ''true''" by (simp add: js_def)
  have checkbox_listed: "js ''checkbox'' \<in> set kAriaCheckedRoles"
    by (simp add: kAriaCheckedRoles_def js_def)
  show ?thesis
    using mixed_not_true checkbox_listed by (auto simp: getChecked_def)
qed

lemma checkboxDocument_roles:
  "roleOrEmpty checkboxDocument 0 = js ''checkbox''"
  "roleOrEmpty checkboxDocument 1 = js ''textbox''"
  "roleOrEmpty checkboxDocument 2 = js ''checkbox''"
  "roleOrEmpty checkboxDocument 3 = []"
  "roleOrEmpty checkboxDocument 4 = js ''checkbox''"
  "roleOrEmpty checkboxDocument 5 = js ''option''"
  by (simp_all add: checkboxDocument_def string_defs dom_defs role_defs walk_simps)

lemma checkboxDocument_elements:
  "tagName (elementAt checkboxDocument 2) \<noteq> js ''INPUT''"
  "tagName (elementAt checkboxDocument 3) \<noteq> js ''INPUT''"
  "tagName (elementAt checkboxDocument 4) = js ''INPUT''"
  "tagName (elementAt checkboxDocument 5) \<noteq> js ''INPUT''"
  "inputType (elementAt checkboxDocument 4) = js ''checkbox''"
  "indeterminate (elementAt checkboxDocument 4)"
  "\<not> checked (elementAt checkboxDocument 4)"
  "getAttribute checkboxDocument 2 (js ''aria-checked'') = Some (js ''mixed'')"
  "getAttribute checkboxDocument 5 (js ''aria-checked'') = None"
  by (simp_all add: checkboxDocument_def string_defs dom_defs)

theorem getChecked_mixed_and_sentinel_witness:
  "roleOrEmpty checkboxDocument 2 = js ''checkbox''
   \<and> getAttribute checkboxDocument 2 (js ''aria-checked'') = Some (js ''mixed'')
   \<and> tagName (elementAt checkboxDocument 2) \<noteq> js ''INPUT''
   \<and> getChecked checkboxDocument 2 True = CheckedMixed
   \<and> getChecked checkboxDocument 2 False = Checked False
   \<and> roleOrEmpty checkboxDocument 3 \<notin> set kAriaCheckedRoles
   \<and> tagName (elementAt checkboxDocument 3) \<noteq> js ''INPUT''
   \<and> getChecked checkboxDocument 3 True = CheckedError
   \<and> getChecked checkboxDocument 4 True = CheckedMixed
   \<and> getChecked checkboxDocument 4 False = Checked False
   \<and> roleOrEmpty checkboxDocument 5 = js ''option''
   \<and> getChecked checkboxDocument 5 True = Checked False"
proof -
  have r: "roleOrEmpty checkboxDocument 3 \<notin> set kAriaCheckedRoles"
    "roleOrEmpty checkboxDocument 5 \<in> set kAriaCheckedRoles"
    using checkboxDocument_roles by (simp_all add: kAriaCheckedRoles_def js_def)
  have t: "js ''checkbox'' \<in> set (map js [''checkbox'', ''radio''])" by simp
  have m: "js ''mixed'' \<noteq> js ''true''" "js ''checkbox'' \<in> set kAriaCheckedRoles"
    by (simp_all add: kAriaCheckedRoles_def js_def)
  show ?thesis
    using getChecked_mixed_and_sentinel[of checkboxDocument 2 True]
      getChecked_mixed_and_sentinel[of checkboxDocument 3 True]
      getChecked_mixed_and_sentinel[of checkboxDocument 4 False]
      getChecked_mixed_and_sentinel[of checkboxDocument 5 True]
      r t m checkboxDocument_roles checkboxDocument_elements
    by simp
qed

theorem getChecked_native_counterexample:
  "roleOrEmpty checkboxDocument 0 = js ''checkbox''
   \<and> getAttribute checkboxDocument 0 (js ''aria-checked'') = Some (js ''mixed'')
   \<and> getChecked checkboxDocument 0 True = Checked True
   \<and> getChecked checkboxDocument 0 False = Checked True
   \<and> roleOrEmpty checkboxDocument 1 \<notin> set kAriaCheckedRoles
   \<and> inputType (elementAt checkboxDocument 1) \<notin> set (map js [''checkbox'', ''radio''])
   \<and> getChecked checkboxDocument 1 True = CheckedMixed"
proof -
  have "getAttribute checkboxDocument 0 (js ''aria-checked'') = Some (js ''mixed'')"
    and "getChecked checkboxDocument 0 True = Checked True"
    and "getChecked checkboxDocument 0 False = Checked True"
    and "inputType (elementAt checkboxDocument 1) \<notin> set (map js [''checkbox'', ''radio''])"
    and "getChecked checkboxDocument 1 True = CheckedMixed"
    by (simp_all add: getChecked_def checkboxDocument_def string_defs dom_defs)
  moreover have "roleOrEmpty checkboxDocument 1 \<notin> set kAriaCheckedRoles"
    using checkboxDocument_roles by (simp add: kAriaCheckedRoles_def js_def)
  ultimately show ?thesis
    using checkboxDocument_roles by simp
qed

section \<open>Presentation inheritance\<close>

text \<open>
  C5. In \<open><ul role="presentation"><li></li></ul>\<close> the list has the explicit role
  presentation and no global ARIA attribute, the item has no explicit role, and the role
  of the item is \<open>listitem\<close>: \<open>hasPresentationConflictResolution\<close> holds of an element
  that has no global ARIA attribute, and the loop of \<open>getImplicitAriaRole\<close> hands the
  role of the parent down only where it does not hold.
\<close>

theorem getAriaRole_presentation_list_item:
  "getExplicitAriaRole presentationList 0 = Some (js ''presentation'')
   \<and> \<not> hasGlobalAriaAttribute presentationList 0
   \<and> tagName (elementAt presentationList 1) = js ''LI''
   \<and> parentElementOrShadowHost presentationList 1 = Some 0
   \<and> getExplicitAriaRole presentationList 1 = None
   \<and> getAriaRole presentationList 1 = Some (js ''listitem'')"
  by (simp add: presentationList_def string_defs dom_defs role_defs walk_simps)

section \<open>The disabled state\<close>

lemma belongsToDisabledFieldSet_light:
  "belongsToDisabledFieldSet d (Some e) =
     (\<exists>f \<in> set (lightAncestorsOrSelf d e).
        tagName (elementAt d f) = js ''FIELDSET'' \<and> hasAttribute d f (js ''disabled''))"
proof (induction d e rule: lightAncestorsOrSelf.induct)
  case (1 d e)
  show ?case
  proof (cases "parentElement d e")
    case None
    then show ?thesis
      by (auto simp: belongsToDisabledFieldSet.simps[of d "Some e"]
          belongsToDisabledFieldSet.simps[of d None] lightAncestorsOrSelf.simps[of d e])
  next
    case (Some p)
    then show ?thesis using "1.IH"[OF Some]
      by (auto simp: belongsToDisabledFieldSet.simps[of d "Some e"]
          lightAncestorsOrSelf.simps[of d e])
  qed
qed

lemma hasExplicitAriaDisabled_find:
  "hasExplicitAriaDisabled d (Some e) =
     (case find (ariaDisabledDecides d) (ancestorsOrSelf d e) of
        None \<Rightarrow> False
      | Some x \<Rightarrow> toLowerCase (attributeOrEmpty d x (js ''aria-disabled'')) = js ''true'')"
proof (induction d e rule: ancestorsOrSelf.induct)
  case (1 d e)
  have tf: "js ''false'' \<noteq> js ''true''" by (simp add: js_def)
  show ?case
  proof (cases "parentElementOrShadowHost d e")
    case None
    then show ?thesis using tf
      by (auto simp: hasExplicitAriaDisabled.simps[of d "Some e"]
          hasExplicitAriaDisabled.simps[of d None]
          ancestorsOrSelf.simps[of d e] ariaDisabledDecides_def Let_def)
  next
    case (Some p)
    then show ?thesis using "1.IH"[OF Some] tf
      by (auto simp: hasExplicitAriaDisabled.simps[of d "Some e"]
          ancestorsOrSelf.simps[of d e] ariaDisabledDecides_def Let_def)
  qed
qed

text \<open>
  C7. An element is disabled exactly in two cases. The first: it is a native form control
  (\<open>BUTTON\<close>, \<open>INPUT\<close>, \<open>SELECT\<close>, \<open>TEXTAREA\<close>, \<open>OPTION\<close>, \<open>OPTGROUP\<close>) and has the \<open>disabled\<close>
  attribute or has, among its ancestors along \<open>parentElement\<close>, a fieldset with the
  \<open>disabled\<close> attribute; this walk ends at a shadow root, so a fieldset around the host
  does not count. The second: the walk for \<open>aria-disabled\<close>, which crosses shadow hosts.
  At each node, from the element upwards, it reads the attribute only when the role of
  that node is in \<open>kAriaDisabledRoles\<close>, and compares it with \<open>true\<close> and \<open>false\<close>
  after lower-casing; the nearest node that decides in this sense gives the result, and
  no such node gives false. In particular an input below a disabled fieldset in the light
  tree is disabled.
\<close>

theorem getAriaDisabled_fieldset_and_walk:
  "getAriaDisabled d e =
     ((tagName (elementAt d e) \<in> set (map js
          [''BUTTON'', ''INPUT'', ''SELECT'', ''TEXTAREA'', ''OPTION'', ''OPTGROUP''])
        \<and> (hasAttribute d e (js ''disabled'')
            \<or> (\<exists>f \<in> set (lightAncestorsOrSelf d e).
                  tagName (elementAt d f) = js ''FIELDSET'' \<and> hasAttribute d f (js ''disabled''))))
      \<or> (case find (ariaDisabledDecides d) (ancestorsOrSelf d e) of
            None \<Rightarrow> False
          | Some x \<Rightarrow> toLowerCase (attributeOrEmpty d x (js ''aria-disabled'')) = js ''true''))
   \<and> (tagName (elementAt d e) = js ''INPUT'' \<and> f \<in> set (lightAncestorsOrSelf d e)
        \<and> tagName (elementAt d f) = js ''FIELDSET'' \<and> hasAttribute d f (js ''disabled'')
      \<longrightarrow> getAriaDisabled d e)"
proof -
  have main: "getAriaDisabled d e =
     ((tagName (elementAt d e) \<in> set (map js
          [''BUTTON'', ''INPUT'', ''SELECT'', ''TEXTAREA'', ''OPTION'', ''OPTGROUP''])
        \<and> (hasAttribute d e (js ''disabled'') \<or> belongsToDisabledFieldSet d (Some e)))
      \<or> hasExplicitAriaDisabled d (Some e))"
    by (simp add: getAriaDisabled_def Let_def del: set_map)
  show ?thesis
    unfolding main belongsToDisabledFieldSet_light hasExplicitAriaDisabled_find
    by auto
qed

lemma disabledDocument_roles:
  "roleOrEmpty disabledDocument 2 = js ''textbox''"
  "roleOrEmpty disabledDocument 3 = js ''group''"
  "roleOrEmpty disabledDocument 4 = js ''textbox''"
  "roleOrEmpty disabledDocument 5 = []"
  "roleOrEmpty disabledDocument 6 = js ''button''"
  "roleOrEmpty disabledDocument 7 = js ''group''"
  "roleOrEmpty disabledDocument 8 = []"
  "roleOrEmpty disabledDocument 9 = js ''textbox''"
  "roleOrEmpty disabledDocument 10 = js ''textbox''"
  by (simp_all add: disabledDocument_def string_defs dom_defs role_defs walk_simps)

lemma disabledDocument_chains:
  "ancestorsOrSelf disabledDocument 2 = [2, 1, 0]"
  "ancestorsOrSelf disabledDocument 4 = [4, 3]"
  "ancestorsOrSelf disabledDocument 6 = [6, 5]"
  "ancestorsOrSelf disabledDocument 9 = [9, 8, 7]"
  "ancestorsOrSelf disabledDocument 10 = [10, 3]"
  "lightAncestorsOrSelf disabledDocument 2 = [2, 1, 0]"
  "lightAncestorsOrSelf disabledDocument 4 = [4]"
  "lightAncestorsOrSelf disabledDocument 6 = [6, 5]"
  "lightAncestorsOrSelf disabledDocument 9 = [9]"
  "lightAncestorsOrSelf disabledDocument 10 = [10]"
  by (simp_all add: disabledDocument_def dom_defs js_def walk_simps)

lemma disabledDocument_attributes:
  "tagName (elementAt disabledDocument 2) = js ''INPUT''"
  "tagName (elementAt disabledDocument 0) = js ''FIELDSET''"
  "tagName (elementAt disabledDocument 7) = js ''FIELDSET''"
  "tagName (elementAt disabledDocument 9) = js ''INPUT''"
  "tagName (elementAt disabledDocument 4) = js ''INPUT''"
  "tagName (elementAt disabledDocument 10) = js ''INPUT''"
  "tagName (elementAt disabledDocument 6) = js ''BUTTON''"
  "tagName (elementAt disabledDocument 5) = js ''DIV''"
  "hasAttribute disabledDocument 0 (js ''disabled'')"
  "hasAttribute disabledDocument 7 (js ''disabled'')"
  "\<not> hasAttribute disabledDocument 9 (js ''disabled'')"
  "\<not> hasAttribute disabledDocument 10 (js ''disabled'')"
  "\<not> hasAttribute disabledDocument 6 (js ''disabled'')"
  "\<not> hasAttribute disabledDocument 5 (js ''disabled'')"
  "attributeOrEmpty disabledDocument 0 (js ''aria-disabled'') = []"
  "attributeOrEmpty disabledDocument 1 (js ''aria-disabled'') = []"
  "attributeOrEmpty disabledDocument 2 (js ''aria-disabled'') = []"
  "attributeOrEmpty disabledDocument 3 (js ''aria-disabled'') = js ''true''"
  "attributeOrEmpty disabledDocument 4 (js ''aria-disabled'') = []"
  "attributeOrEmpty disabledDocument 5 (js ''aria-disabled'') = js ''true''"
  "attributeOrEmpty disabledDocument 6 (js ''aria-disabled'') = []"
  "attributeOrEmpty disabledDocument 7 (js ''aria-disabled'') = []"
  "attributeOrEmpty disabledDocument 8 (js ''aria-disabled'') = []"
  "attributeOrEmpty disabledDocument 9 (js ''aria-disabled'') = []"
  "attributeOrEmpty disabledDocument 10 (js ''aria-disabled'') = js ''false''"
  "getAttribute disabledDocument 5 (js ''aria-disabled'') = Some (js ''true'')"
  "getAttribute disabledDocument 6 (js ''aria-disabled'') = None"
  by (simp_all add: disabledDocument_def dom_defs js_def)

lemma disabledDocument_decides:
  "find (ariaDisabledDecides disabledDocument) (ancestorsOrSelf disabledDocument 2) = None"
  "find (ariaDisabledDecides disabledDocument) (ancestorsOrSelf disabledDocument 4) = Some 3"
  "find (ariaDisabledDecides disabledDocument) (ancestorsOrSelf disabledDocument 6) = None"
  "find (ariaDisabledDecides disabledDocument) (ancestorsOrSelf disabledDocument 9) = None"
  "find (ariaDisabledDecides disabledDocument) (ancestorsOrSelf disabledDocument 10) = Some 10"
  using disabledDocument_roles disabledDocument_attributes
  by (simp_all add: disabledDocument_chains ariaDisabledDecides_def kAriaDisabledRoles_def string_defs)

theorem getAriaDisabled_fieldset_and_walk_witness:
  "lightAncestorsOrSelf disabledDocument 2 = [2, 1, 0]
   \<and> getAriaDisabled disabledDocument 2
   \<and> ancestorsOrSelf disabledDocument 9 = [9, 8, 7]
   \<and> lightAncestorsOrSelf disabledDocument 9 = [9]
   \<and> \<not> getAriaDisabled disabledDocument 9
   \<and> find (ariaDisabledDecides disabledDocument) (ancestorsOrSelf disabledDocument 4) = Some 3
   \<and> getAriaDisabled disabledDocument 4
   \<and> find (ariaDisabledDecides disabledDocument) (ancestorsOrSelf disabledDocument 10) = Some 10
   \<and> \<not> getAriaDisabled disabledDocument 10"
  using getAriaDisabled_fieldset_and_walk[of disabledDocument 2 0]
    getAriaDisabled_fieldset_and_walk[of disabledDocument 4 0]
    getAriaDisabled_fieldset_and_walk[of disabledDocument 9 0]
    getAriaDisabled_fieldset_and_walk[of disabledDocument 10 0]
    disabledDocument_chains disabledDocument_attributes disabledDocument_decides
  by (simp add: string_defs)

theorem getAriaDisabled_ancestor_counterexample:
  "roleOrEmpty disabledDocument 6 \<in> set kAriaDisabledRoles
   \<and> nearestAriaDisabled disabledDocument 6
   \<and> \<not> getAriaDisabled disabledDocument 6"
proof -
  have a: "roleOrEmpty disabledDocument 6 \<in> set kAriaDisabledRoles"
    using disabledDocument_roles by (simp add: kAriaDisabledRoles_def js_def)
  have b: "nearestAriaDisabled disabledDocument 6"
    using disabledDocument_attributes
    by (simp add: nearestAriaDisabled_def disabledDocument_chains js_def)
  have d: "\<not> hasExplicitAriaDisabled disabledDocument (Some 6)"
    by (simp add: hasExplicitAriaDisabled_find disabledDocument_decides)
  have "\<not> belongsToDisabledFieldSet disabledDocument (Some 6)"
    using disabledDocument_attributes
    by (simp add: belongsToDisabledFieldSet_light disabledDocument_chains js_def)
  then have e: "\<not> getAriaDisabled disabledDocument 6"
    using d disabledDocument_attributes by (simp add: getAriaDisabled_def)
  show ?thesis using a b e by simp
qed

section \<open>Termination of the name computation\<close>

lemma extends_refl [simp]: "extends t t"
  by (simp add: extends_def)

lemma extends_trans: "extends t t1 \<Longrightarrow> extends t1 t2 \<Longrightarrow> extends t t2"
  by (auto simp: extends_def)

lemma visited_markVisited [simp]:
  "set (visitedElements (markVisited e t)) = insert e (set (visitedElements t))"
  by (auto simp: markVisited_def)

lemma hiddenCache_markVisited [simp]: "hiddenCache (markVisited e t) = hiddenCache t"
  by (simp add: markVisited_def)

lemma markVisited_idem [simp]: "markVisited e (markVisited e t) = markVisited e t"
  by (simp add: markVisited_def)

lemma extends_markVisited [simp]: "extends t (markVisited e t)"
  by (auto simp: extends_def)

lemma within_markVisited:
  "within d X t \<Longrightarrow> e < length d \<Longrightarrow> within d (insert e X) (markVisited e t)"
  by (auto simp: within_def)

lemma within_subset: "within d X t \<Longrightarrow> Y \<subseteq> X \<Longrightarrow> within d Y t"
  by (auto simp: within_def)

lemma returns_Some: "within d X t \<Longrightarrow> returns d X t (Some (x, t))"
  by (simp add: returns_def)

lemma returns_weaken: "extends t t1 \<Longrightarrow> Y \<subseteq> X \<Longrightarrow> returns d X t1 r \<Longrightarrow> returns d Y t r"
  by (auto simp: returns_def within_def intro: extends_trans split: option.splits)

lemma returns_marked:
  "within d X t \<Longrightarrow> e < length d \<Longrightarrow> t1 = markVisited e t
     \<Longrightarrow> returns d (insert e X) t1 r \<Longrightarrow> returns d X t r"
  by (auto intro: returns_weaken[where ?t1.0=t1 and X="insert e X"])

lemma returns_Some_marked:
  "within d X t \<Longrightarrow> e < length d \<Longrightarrow> t1 = markVisited e t \<Longrightarrow> returns d X t (Some (x, t1))"
  by (rule returns_marked) (auto intro: returns_Some within_markVisited)

lemma returns_if:
  "(c \<Longrightarrow> returns d X t a) \<Longrightarrow> (\<not> c \<Longrightarrow> returns d X t b) \<Longrightarrow> returns d X t (if c then a else b)"
  by simp

lemma returns_let: "(\<And>x. x = a \<Longrightarrow> returns d X t (f x)) \<Longrightarrow> returns d X t (Let a f)"
  by simp

lemma returns_option:
  "(x = None \<Longrightarrow> returns d X t a) \<Longrightarrow> (\<And>y. x = Some y \<Longrightarrow> returns d X t (b y))
     \<Longrightarrow> returns d X t (case x of None \<Rightarrow> a | Some y \<Rightarrow> b y)"
  by (simp split: option.splits)

lemma returns_bind:
  assumes "returns d X t r"
    and "\<And>x t'. r = Some (x, t') \<Longrightarrow> within d X t' \<Longrightarrow> returns d X t' (k x t')"
  shows "returns d X t (case r of None \<Rightarrow> None | Some (x, t') \<Rightarrow> k x t')"
proof -
  from assms(1) obtain x t' where r: "r = Some (x, t')" and e: "extends t t'" and i: "within d X t'"
    by (auto simp: returns_def split: option.splits)
  from assms(2)[OF r i] have "returns d X t' (k x t')" .
  with e have "returns d X t (k x t')" by (auto intro: returns_weaken)
  with r show ?thesis by simp
qed

lemmas returns_structure = returns_if returns_let returns_bind returns_option

lemma recursionReturnsD:
  "recursionReturns d X P rec \<Longrightarrow> c < length d \<Longrightarrow> P options \<Longrightarrow> within d X t
     \<Longrightarrow> returns d X t (rec c options t)"
  by (simp add: recursionReturns_def)

lemma returns_mapNames:
  assumes "\<And>x t. x \<in> set xs \<Longrightarrow> within d X t \<Longrightarrow> returns d X t (f x t)"
    and "within d X t"
  shows "returns d X t (mapNames f xs t)"
  using assms
proof (induction xs arbitrary: t)
  case Nil
  then show ?case by (simp add: returns_Some)
next
  case (Cons a xs)
  show ?case
    unfolding mapNames.simps
    by (intro returns_structure returns_Some Cons.IH Cons.prems) (auto intro: Cons.prems)
qed

lemma returns_labels:
  assumes "recursionReturns d X (\<lambda>_. True) rec" "set ls \<subseteq> {..<length d}" "within d X t"
  shows "returns d X t (getAccessibleNameFromAssociatedLabels rec ls options t)"
  unfolding getAccessibleNameFromAssociatedLabels_def
  using assms
  by (intro returns_structure returns_Some returns_mapNames recursionReturnsD) auto

lemma step2i_returns:
  "within d X t \<Longrightarrow> e < length d \<Longrightarrow> returns d X t (Some (step2i d e role t))"
  unfolding step2i_def Let_def
  by (auto intro!: returns_Some_marked[where e=e])

lemma nodesWithin_simps [simp]:
  "nodesWithin d []"
  "nodesWithin d (ElementNode c # ns) = (c < length d \<and> nodesWithin d ns)"
  "nodesWithin d (TextNode a b v # ns) = nodesWithin d ns"
  "nodesWithin d (OtherNode # ns) = nodesWithin d ns"
  "nodesWithin d (ns @ ms) = (nodesWithin d ns \<and> nodesWithin d ms)"
  by (auto simp: nodesWithin_def)

lemma nodesWithin_nodesInDocument [simp]: "nodesWithin d (nodesInDocument d ns)"
  by (auto simp: nodesWithin_def nodesInDocument_def)

lemma nodesWithin_map: "set xs \<subseteq> {..<length d} \<Longrightarrow> nodesWithin d (map ElementNode xs)"
  by (auto simp: nodesWithin_def)

lemma returns_visitNodes:
  assumes "recursionReturns d X (\<lambda>_. True) rec" "nodesWithin d ns" "within d X t"
  shows "returns d X t (visitNodes rec d childOptions skipSlotted ns t)"
  using assms(2-)
proof (induction ns arbitrary: t)
  case Nil
  then show ?case by (simp add: returns_Some)
next
  case (Cons n ns)
  show ?case
  proof (cases n)
    case (ElementNode c)
    with Cons.prems have c: "c < length d" and ns: "nodesWithin d ns" by simp_all
    show ?thesis
      unfolding ElementNode visitNodes.simps
      by (intro returns_structure returns_Some Cons.IH recursionReturnsD[OF assms(1)] c ns Cons.prems) auto
  next
    case (TextNode content slotted visible)
    with Cons.prems have ns: "nodesWithin d ns" by simp
    show ?thesis
      unfolding TextNode visitNodes.simps
      by (intro returns_structure returns_Some Cons.IH ns Cons.prems) auto
  next
    case OtherNode
    with Cons.prems have ns: "nodesWithin d ns" by simp
    show ?thesis unfolding OtherNode visitNodes.simps by (intro Cons.IH ns Cons.prems)
  qed
qed

lemma set_addToSet: "set (addToSet xs x) = insert x (set xs)"
  by auto

lemma querySelectorId_within: "querySelectorId d root i = Some x \<Longrightarrow> x < length d"
  by (auto simp: querySelectorId_def find_Some_iff)

lemma foldl_idRefs_within:
  "set acc \<subseteq> {..<length d} \<Longrightarrow>
   set (foldl (\<lambda>acc i. case querySelectorId d root i of None \<Rightarrow> acc
                        | Some firstElement \<Rightarrow> addToSet acc firstElement) acc ids) \<subseteq> {..<length d}"
proof (induction ids arbitrary: acc)
  case Nil
  then show ?case by simp
next
  case (Cons i ids)
  show ?case
  proof (cases "querySelectorId d root i")
    case None
    then show ?thesis using Cons by simp
  next
    case (Some x)
    then have "set (addToSet acc x) \<subseteq> {..<length d}"
      using Cons.prems querySelectorId_within[OF Some] by (simp only: set_addToSet) auto
    from Cons.IH[OF this] show ?thesis using Some by (simp del: addToSet.simps)
  qed
qed

lemma getIdRefs_within: "set (getIdRefs d e r) \<subseteq> {..<length d}"
  using foldl_idRefs_within[of "[]" d]
  by (auto simp: getIdRefs_def Let_def split: option.splits)

lemma markedI:
  "within d X t \<Longrightarrow> e < length d
     \<Longrightarrow> (within d (insert e X) (markVisited e t)
            \<Longrightarrow> returns d (insert e X) (markVisited e t) (m (markVisited e t)))
     \<Longrightarrow> returns d X t (m (markVisited e t))"
  by (rule returns_marked[where e=e and ?t1.0="markVisited e t"]) (auto intro: within_markVisited)

lemma returns_visitNodes_marked:
  "recursionReturns d (insert e X) (\<lambda>_. True) rec \<Longrightarrow> nodesWithin d ns \<Longrightarrow> within d X t
     \<Longrightarrow> e < length d
     \<Longrightarrow> returns d X t (visitNodes rec d childOptions skipSlotted ns (markVisited e t))"
  by (rule markedI[where m="visitNodes rec d childOptions skipSlotted ns"])
     (auto intro: returns_visitNodes)

lemma returns_mapNames_marked:
  "(\<And>x t. x \<in> set xs \<Longrightarrow> within d (insert e X) t \<Longrightarrow> returns d (insert e X) t (f x t))
     \<Longrightarrow> within d X t \<Longrightarrow> e < length d
     \<Longrightarrow> returns d X t (mapNames f xs (markVisited e t))"
  by (rule markedI[where m="mapNames f xs"]) (auto intro: returns_mapNames)

lemma returns_labels_marked:
  "recursionReturns d (insert e X) (\<lambda>_. True) rec \<Longrightarrow> set ls \<subseteq> {..<length d}
     \<Longrightarrow> within d X t \<Longrightarrow> e < length d
     \<Longrightarrow> returns d X t (getAccessibleNameFromAssociatedLabels rec ls options (markVisited e t))"
  by (rule markedI[where m="getAccessibleNameFromAssociatedLabels rec ls options"])
     (auto intro: returns_labels)

lemma returns_rec_marked:
  "recursionReturns d (insert e X) (\<lambda>_. True) rec \<Longrightarrow> c < length d
     \<Longrightarrow> within d X t \<Longrightarrow> e < length d
     \<Longrightarrow> returns d X t (rec c options (markVisited e t))"
  by (rule markedI[where m="rec c options"]) (auto intro: recursionReturnsD)

lemma step2f_returns:
  assumes "recursionReturns d (insert e X) (\<lambda>_. True) rec" "e < length d" "within d X t"
  shows "returns d X t (step2f rec d e options childOptions role t)"
  unfolding step2f_def Let_def
  by (intro returns_structure step2i_returns returns_Some returns_visitNodes_marked assms)
     (auto intro!: nodesWithin_map getIdRefs_within split: option.splits)

lemma step2f_returns_marked:
  assumes "recursionReturns d (insert e X) (\<lambda>_. True) rec" "e < length d" "within d X t"
  shows "returns d X t (step2f rec d e options childOptions role (markVisited e t))"
  using assms
  by (intro markedI[where m="step2f rec d e options childOptions role"] step2f_returns) auto

lemma returns_Some_marked':
  "within d X t \<Longrightarrow> e < length d \<Longrightarrow> returns d X t (Some (x, markVisited e t))"
  by (rule returns_Some_marked[where e=e]) auto

lemma firstElementChildWhere_within: "firstElementChildWhere d e P = Some c \<Longrightarrow> c < length d"
proof -
  have "\<And>ns. nodesWithin d ns \<Longrightarrow> c \<in> set (elementChildren ns) \<Longrightarrow> c < length d"
  proof -
    fix ns show "nodesWithin d ns \<Longrightarrow> c \<in> set (elementChildren ns) \<Longrightarrow> c < length d"
      by (induction ns rule: elementChildren.induct) auto
  qed
  moreover assume "firstElementChildWhere d e P = Some c"
  then have "c \<in> set (elementChildren (nodesInDocument d (childNodes (elementAt d e))))"
    by (auto simp: firstElementChildWhere_def find_Some_iff)
  ultimately show ?thesis using nodesWithin_nodesInDocument by blast
qed

lemma labelsOf_within: "set (labelsOf d e) \<subseteq> {..<length d}"
  by (auto simp: labelsOf_def elementsInDocument_def split: option.splits)

lemma step2e_svgLink_returns:
  assumes "recursionReturns d (insert e X) (\<lambda>_. True) rec" "e < length d" "within d X t"
  shows "returns d X t (step2e_svgLink rec d e options childOptions role t)"
  unfolding step2e_svgLink_def
  by (intro returns_structure returns_Some_marked' step2f_returns assms)

lemma step2e_svgLink_returns_marked:
  assumes "recursionReturns d (insert e X) (\<lambda>_. True) rec" "e < length d" "within d X t"
  shows "returns d X t (step2e_svgLink rec d e options childOptions role (markVisited e t))"
  using assms
  by (intro markedI[where m="step2e_svgLink rec d e options childOptions role"] step2e_svgLink_returns) auto

lemma step2e_graphics_returns:
  assumes "recursionReturns d (insert e X) (\<lambda>_. True) rec" "e < length d" "within d X t"
  shows "returns d X t (step2e_graphics rec d e options childOptions role t)"
  unfolding step2e_graphics_def Let_def
  by (intro returns_structure returns_Some_marked' step2e_svgLink_returns
        step2e_svgLink_returns_marked returns_rec_marked[OF assms(1)] assms)
     (auto dest: firstElementChildWhere_within)

lemma step2e_graphics_returns_marked:
  assumes "recursionReturns d (insert e X) (\<lambda>_. True) rec" "e < length d" "within d X t"
  shows "returns d X t (step2e_graphics rec d e options childOptions role (markVisited e t))"
  using assms
  by (intro markedI[where m="step2e_graphics rec d e options childOptions role"] step2e_graphics_returns) auto

lemma step2e_elements_returns:
  assumes "recursionReturns d (insert e X) (\<lambda>_. True) rec" "e < length d" "within d X t"
  shows "returns d X t (step2e_elements rec d e options childOptions labelledBy role t)"
  unfolding step2e_elements_def Let_def
  by (intro returns_structure returns_Some_marked' step2e_graphics_returns
        step2e_graphics_returns_marked returns_labels_marked returns_rec_marked[OF assms(1)] labelsOf_within assms)
     (auto dest: firstElementChildWhere_within)

lemma step2e_elements_returns_marked:
  assumes "recursionReturns d (insert e X) (\<lambda>_. True) rec" "e < length d" "within d X t"
  shows "returns d X t (step2e_elements rec d e options childOptions labelledBy role (markVisited e t))"
  using assms
  by (intro markedI[where m="step2e_elements rec d e options childOptions labelledBy role"]
        step2e_elements_returns) auto

lemma step2e_returns:
  assumes "recursionReturns d (insert e X) (\<lambda>_. True) rec" "e < length d" "within d X t"
  shows "returns d X t (step2e rec d e options childOptions labelledBy role t)"
  unfolding step2e_def Let_def
  by (intro returns_structure returns_Some_marked' step2e_elements_returns step2f_returns
        step2e_elements_returns_marked returns_labels_marked labelsOf_within assms)

lemma step2d_returns:
  assumes "recursionReturns d (insert e X) (\<lambda>_. True) rec" "e < length d" "within d X t"
  shows "returns d X t (step2d rec d e options childOptions labelledBy role t)"
  unfolding step2d_def Let_def
  by (intro returns_structure returns_Some_marked' step2e_returns assms)

lemma querySelectorAll_within: "set (querySelectorAll d e sel) \<subseteq> {..<length d}"
  by (auto simp: querySelectorAll_def)

lemma queryInAriaOwned_within: "set (queryInAriaOwned d e sel) \<subseteq> {..<length d}"
  using querySelectorAll_within getIdRefs_within
  by (fastforce simp: queryInAriaOwned_def split: if_splits)

lemma selectedOptionsOf_within: "set (selectedOptionsOf d e role) \<subseteq> {..<length d}"
proof (cases "tagName (elementAt d e) = js ''SELECT''")
  case True
  let ?opts = "elementsInDocument d (selectOptions (elementAt d e))"
  have el: "\<And>xs. set (elementsInDocument d xs) \<subseteq> {..<length d}"
    by (auto simp: elementsInDocument_def)
  have "?opts \<noteq> [] \<Longrightarrow> hd ?opts < length d"
    using list.set_sel(1)[of ?opts] el[of "selectOptions (elementAt d e)"] by blast
  then show ?thesis
    using True el[of "selectedOptions (elementAt d e)"] by (auto simp: selectedOptionsOf_def Let_def)
next
  case False
  then show ?thesis
    using queryInAriaOwned_within
    by (auto simp: selectedOptionsOf_def Let_def split: option.splits)
qed

lemma step2c_returns:
  assumes "recursionReturns d (insert e X) (\<lambda>_. True) rec" "e < length d" "within d X t"
  shows "returns d X t (step2c rec d e options childOptions labelledBy role t)"
  unfolding step2c_def Let_def
  by (intro returns_structure returns_Some_marked' returns_Some step2d_returns
        returns_mapNames_marked recursionReturnsD[OF assms(1)] assms)
     (use selectedOptionsOf_within in auto)

lemma getAriaLabelledByElements_within:
  "set (case getAriaLabelledByElements d e of None \<Rightarrow> [] | Some refs \<Rightarrow> refs) \<subseteq> {..<length d}"
  using getIdRefs_within by (auto simp: getAriaLabelledByElements_def split: option.splits)

lemma step2b_returns:
  assumes "recursionReturns d (insert e X) (\<lambda>_. True) rec"
    and "embeddedInLabelledBy options = EmbeddedNone
           \<Longrightarrow> recursionReturns d X (\<lambda>opts. embeddedInLabelledBy opts \<noteq> EmbeddedNone) rec"
    and "e < length d" "within d X t"
  shows "returns d X t (step2b rec d e options childOptions t)"
  unfolding step2b_def Let_def
  by (intro returns_structure step2c_returns returns_Some returns_mapNames
        recursionReturnsD[OF assms(2)] assms(1,3,4))
     (use getAriaLabelledByElements_within[of d e] in auto)

lemma cacheSet_None [simp]: "(cacheSet c e v = None) = (c = None)"
  by (simp add: cacheSet_def split: option.splits)

lemma belongsTo_cache_None:
  "(snd (belongsToDisplayNoneOrAriaHiddenOrNonSlotted d e c) = None) = (c = None)"
proof (induction e arbitrary: c rule: less_induct)
  case (less e)
  have rec: "\<And>p. parentElementOrShadowHost d e = Some p
      \<Longrightarrow> (snd (belongsToDisplayNoneOrAriaHiddenOrNonSlotted d p c) = None) = (c = None)"
    by (rule less.IH) (rule parentElementOrShadowHost_less)
  show ?case
  proof (cases "cacheGet c e")
    case (Some h)
    then show ?thesis by (subst belongsToDisplayNoneOrAriaHiddenOrNonSlotted.simps) simp
  next
    case None
    show ?thesis
    proof (cases "parentElementOrShadowHost d e")
      case None2: None
      show ?thesis
        by (subst belongsToDisplayNoneOrAriaHiddenOrNonSlotted.simps)
           (simp add: None None2 Let_def)
    next
      case (Some p)
      show ?thesis
        by (subst belongsToDisplayNoneOrAriaHiddenOrNonSlotted.simps)
           (simp add: None Some Let_def case_prod_beta rec[OF Some])
    qed
  qed
qed

lemma hidden_cache_None:
  "(snd (isElementHiddenForAria d e c) = None) = (c = None)"
  "(snd (allChildrenHidden d e ns c) = None) = (c = None)"
proof (induction d e c and d e ns c rule: isElementHiddenForAria_allChildrenHidden.induct)
  case (1 d e cache)
  have "(snd (allChildrenHidden d e (childNodes (elementAt d e)) cache) = None) = (cache = None)"
    if "tagName (elementAt d e) \<notin> set (map js [''STYLE'', ''SCRIPT'', ''NOSCRIPT'', ''TEMPLATE''])"
      and "tagName (elementAt d e) \<noteq> js ''SLOT''"
      and "case computedStyle (elementAt d e) of None \<Rightarrow> False | Some s \<Rightarrow> display s = js ''contents''"
    using "1.IH"[of False] that by simp
  then show ?case
    by (subst isElementHiddenForAria.simps) (simp add: Let_def belongsTo_cache_None)
next
  case (2 d e cache)
  then show ?case by simp
next
  case (3 d e child rest cache)
  show ?case
  proof (cases child)
    case (ElementNode c)
    show ?thesis
    proof (cases "e < c \<and> c < length d")
      case True
      obtain h cache' where r: "isElementHiddenForAria d c cache = (h, cache')"
        by (cases "isElementHiddenForAria d c cache") auto
      have a: "(cache' = None) = (cache = None)"
        using "3.IH"(1)[OF ElementNode True] r by simp
      have b: "h \<Longrightarrow> (snd (allChildrenHidden d e rest cache') = None) = (cache' = None)"
        using "3.IH"(2)[OF ElementNode True r[symmetric]] by simp
      show ?thesis using ElementNode True r a b by auto
    next
      case False
      then show ?thesis using "3.IH"(3)[OF ElementNode] ElementNode by auto
    qed
  next
    case (TextNode content slotted visible)
    then show ?thesis using "3.IH"(4)[OF TextNode] by auto
  next
    case OtherNode
    then show ?thesis using "3.IH"(5)[OF OtherNode] by auto
  qed
qed

lemma accessibleNameStep_returns:
  assumes "e \<notin> set (visitedElements t) \<Longrightarrow> recursionReturns d (insert e X) (\<lambda>_. True) rec"
    and "e \<notin> set (visitedElements t) \<Longrightarrow> embeddedInLabelledBy options = EmbeddedNone
           \<Longrightarrow> recursionReturns d X (\<lambda>opts. embeddedInLabelledBy opts \<noteq> EmbeddedNone) rec"
    and "e < length d" "within d X t"
  shows "returns d X t (accessibleNameStep rec d e options t)"
proof (cases "e \<in> set (visitedElements t)")
  case True
  then show ?thesis using assms(4) by (simp add: accessibleNameStep_def returns_Some)
next
  case False
  note r1 = assms(1)[OF False]
  let ?co = "childOptionsOf options"
  have b: "\<And>t'. within d X t' \<Longrightarrow> returns d X t' (step2b rec d e options ?co t')"
    using r1 assms(2)[OF False] assms(3) by (intro step2b_returns) auto
  obtain hidden cache' where h: "isElementHiddenForAria d e (hiddenCache t) = (hidden, cache')"
    by (cases "isElementHiddenForAria d e (hiddenCache t)") auto
  let ?t' = "t\<lparr> hiddenCache := cache' \<rparr>"
  have "(cache' = None) = (hiddenCache t = None)"
    using hidden_cache_None(1)[of d e "hiddenCache t"] h by simp
  then have ext: "extends t ?t'" by (simp add: extends_def)
  have w: "within d X ?t'" using assms(4) by (simp add: within_def)
  have hid: "returns d X t (Some ([]::jsstring, markVisited e ?t'))"
    by (rule returns_weaken[OF ext subset_refl]) (rule returns_Some_marked'[OF w assms(3)])
  have vis: "returns d X t (step2b rec d e options ?co ?t')"
    by (rule returns_weaken[OF ext subset_refl]) (rule b[OF w])
  show ?thesis
    using False h hid vis b[OF assms(4)]
    by (simp add: accessibleNameStep_def Let_def)
qed

lemma card_unvisited_less:
  assumes "set (visitedElements t) \<subseteq> {..<length d}" "e < length d" "e \<notin> set (visitedElements t)"
    "within d (insert e (set (visitedElements t))) t'"
  shows "card ({..<length d} - set (visitedElements t')) < card ({..<length d} - set (visitedElements t))"
proof (rule psubset_card_mono)
  show "finite ({..<length d} - set (visitedElements t))" by simp
  show "{..<length d} - set (visitedElements t') \<subset> {..<length d} - set (visitedElements t)"
    using assms by (auto simp: within_def)
qed

lemma card_unvisited_le:
  assumes "within d (set (visitedElements t)) t'"
  shows "card ({..<length d} - set (visitedElements t')) \<le> card ({..<length d} - set (visitedElements t))"
  using assms by (intro card_mono) (auto simp: within_def)

lemma measure_after_visit: "(a::nat) < b \<Longrightarrow> 2 * b + x < Suc n \<Longrightarrow> y \<le> 1 \<Longrightarrow> 2 * a + y < n"
  by arith

lemma measure_labelledby: "(a::nat) \<le> b \<Longrightarrow> 2 * b + 1 < Suc n \<Longrightarrow> 2 * a + 0 < n"
  by arith

lemma within_visited: "within d X t \<Longrightarrow> set (visitedElements t) \<subseteq> {..<length d}"
  by (simp add: within_def)

lemma within_floor: "within d X t \<Longrightarrow> X \<subseteq> set (visitedElements t)"
  by (simp add: within_def)

lemma within_self: "set (visitedElements t) \<subseteq> {..<length d} \<Longrightarrow> within d (set (visitedElements t)) t"
  by (simp add: within_def)

lemma getElementAccessibleNameInternal_returns:
  "e < length d \<Longrightarrow> set (visitedElements t) \<subseteq> {..<length d}
     \<Longrightarrow> 2 * card ({..<length d} - set (visitedElements t))
           + (if embeddedInLabelledBy options = EmbeddedNone then 1 else 0) < depth
     \<Longrightarrow> returns d (set (visitedElements t)) t (getElementAccessibleNameInternal depth d e options t)"
proof (induction depth arbitrary: e options t)
  case 0
  then show ?case by simp
next
  case (Suc depth)
  let ?V = "set (visitedElements t)"
  let ?rec = "getElementAccessibleNameInternal depth d"
  have w: "within d ?V t" using Suc.prems(2) by (rule within_self)
  have r1: "recursionReturns d (insert e ?V) (\<lambda>_. True) ?rec" if nv: "e \<notin> ?V"
    unfolding recursionReturns_def
  proof (intro allI impI)
    fix c and opts :: accessibleNameOptions and t'
    assume c: "c < length d" and w': "within d (insert e ?V) t'"
    have less: "card ({..<length d} - set (visitedElements t')) < card ({..<length d} - ?V)"
      using Suc.prems(2,1) nv w' by (rule card_unvisited_less)
    have y: "(if embeddedInLabelledBy opts = EmbeddedNone then 1 else 0) \<le> (1::nat)" by simp
    have m: "2 * card ({..<length d} - set (visitedElements t'))
           + (if embeddedInLabelledBy opts = EmbeddedNone then 1 else 0) < depth"
      using less Suc.prems(3) y by (rule measure_after_visit)
    have "returns d (set (visitedElements t')) t' (?rec c opts t')"
      using c within_visited[OF w'] m by (rule Suc.IH)
    then show "returns d (insert e ?V) t' (?rec c opts t')"
      by (rule returns_weaken[OF extends_refl within_floor[OF w']])
  qed
  have r2: "recursionReturns d ?V (\<lambda>opts. embeddedInLabelledBy opts \<noteq> EmbeddedNone) ?rec"
    if lb: "embeddedInLabelledBy options = EmbeddedNone"
    unfolding recursionReturns_def
  proof (intro allI impI)
    fix c and opts :: accessibleNameOptions and t'
    assume c: "c < length d" and w': "within d ?V t'"
      and o: "embeddedInLabelledBy opts \<noteq> EmbeddedNone"
    have le: "card ({..<length d} - set (visitedElements t')) \<le> card ({..<length d} - ?V)"
      using w' by (rule card_unvisited_le)
    have p3: "2 * card ({..<length d} - ?V) + 1 < Suc depth"
      using Suc.prems(3) lb by simp
    have m: "2 * card ({..<length d} - set (visitedElements t'))
           + (if embeddedInLabelledBy opts = EmbeddedNone then 1 else 0) < depth"
      using measure_labelledby[OF le p3] o by simp
    have "returns d (set (visitedElements t')) t' (?rec c opts t')"
      using c within_visited[OF w'] m by (rule Suc.IH)
    then show "returns d ?V t' (?rec c opts t')"
      by (rule returns_weaken[OF extends_refl within_floor[OF w']])
  qed
  show ?case
    unfolding getElementAccessibleNameInternal.simps
    using r1 r2 Suc.prems(1) w by (rule accessibleNameStep_returns)
qed


text \<open>
  C1. Nested calls of the worker are at most \<open>2 * length d + 1\<close> deep: a call made before
  the caller has entered the visited set is a call for an \<open>aria-labelledby\<close> reference,
  and the callee makes no such call itself; every other call is made after the caller has
  entered the set. So with that depth allowed, \<open>getElementAccessibleName\<close> returns a
  name for every element of the document and both values of the flag, whatever the
  references between the elements; and the worker returns the empty name at once for an
  element in the visited set.
\<close>

theorem getElementAccessibleName_terminates:
  assumes "e < length d" and "2 * length d + 2 \<le> depth"
  shows "(\<exists>name s'. getElementAccessibleName depth d e hidden s = Some (name, s'))
    \<and> (\<forall>x options t. x \<in> set (visitedElements t)
          \<longrightarrow> getElementAccessibleNameInternal depth d x options t = Some ([], t))"
proof
  let ?t = "\<lparr> visitedElements = [], hiddenCache = cacheIsHidden s \<rparr>"
  have "card ({..<length d} - set (visitedElements ?t)) = length d" by simp
  then have "returns d (set (visitedElements ?t)) ?t
     (getElementAccessibleNameInternal depth d e (targetOptions hidden) ?t)"
    using assms by (intro getElementAccessibleNameInternal_returns) auto
  then obtain name t'
    where "getElementAccessibleNameInternal depth d e (targetOptions hidden) ?t = Some (name, t')"
    by (auto simp: returns_def split: option.splits)
  then show "\<exists>name s'. getElementAccessibleName depth d e hidden s = Some (name, s')"
    by (cases hidden) (auto simp: getElementAccessibleName_def Let_def split: option.splits)
next
  from assms(2) obtain n where "depth = Suc n" by (cases depth) auto
  then show "\<forall>x options t. x \<in> set (visitedElements t)
          \<longrightarrow> getElementAccessibleNameInternal depth d x options t = Some ([], t)"
    by (simp add: accessibleNameStep_def)
qed

lemmas step_defs = accessibleNameStep_def childOptionsOf_def
  step2b_def step2c_def step2d_def step2e_def step2e_elements_def step2e_graphics_def
  step2e_svgLink_def step2f_def step2i_def targetOptions_def markVisited_def
  allowsNameFromContent_def getPseudoContent_def
  nodesInDocument_def labelsOf_def elementsInDocument_def firstElementChildWhere_def
  getAccessibleNameFromAssociatedLabels_def

lemmas attribute_defs = getAttribute_def hasAttribute_def attributeOrEmpty_def detachedElement_def

lemmas hidden_defs = getAriaBoolean_def isElementStyleVisibilityVisible_def selectSelector_def
  cacheGet_def cacheSet_def

lemma getIdRefs_None: "getIdRefs d e None = []"
  by (simp add: getIdRefs_def)

lemma cyclicDocument_roles:
  "roleOrEmpty cyclicDocument 0 = []"
  "roleOrEmpty cyclicDocument 1 = []"
  by (simp_all add: cyclicDocument_def string_defs dom_defs role_defs walk_simps)

lemma cyclicDocument_references:
  "getAriaLabelledByElements cyclicDocument 0 = Some [1]"
  "getAriaLabelledByElements cyclicDocument 1 = Some [0]"
  by (simp_all add: cyclicDocument_def string_defs dom_defs getAriaLabelledByElements_def
      getIdRefs_def querySelectorId_def walk_simps)

lemma cyclicDocument_hidden:
  "isElementHiddenForAria cyclicDocument 1 None = (False, None)"
  by (simp add: cyclicDocument_def string_defs dom_defs hidden_defs walk_simps)

lemma cyclicDocument_elements:
  "length cyclicDocument = 2"
  "elementAt cyclicDocument 0 = cyclicDocument ! 0"
  "elementAt cyclicDocument 1 = cyclicDocument ! 1"
  "cyclicDocument ! 0 = detachedElement\<lparr> tagName := js ''DIV'', parentNodeOf := DocumentParent,
        attributes := [(js ''id'', js ''outer''), (js ''aria-labelledby'', js ''inner'')],
        childNodes := [ElementNode 1],
        computedStyle := Some \<lparr> display = js ''block'', visibilityVisible = True \<rparr> \<rparr>"
  "cyclicDocument ! 1 = detachedElement\<lparr> tagName := js ''SPAN'', parentNodeOf := ElementParent 0,
        attributes := [(js ''id'', js ''inner''), (js ''aria-labelledby'', js ''outer'')],
        childNodes := [TextNode (js ''Hello'') False True],
        computedStyle := Some \<lparr> display = js ''inline'', visibilityVisible = True \<rparr> \<rparr>"
  by (simp_all add: elementAt_def cyclicDocument_def)

lemmas cyclicDocument_facts = cyclicDocument_roles cyclicDocument_references
  cyclicDocument_hidden cyclicDocument_elements

lemma cyclicDocument_worker:
  "getElementAccessibleNameInternal (Suc (Suc (Suc (Suc (Suc (Suc 0)))))) cyclicDocument 1
     (targetOptions False) \<lparr> visitedElements = [], hiddenCache = None \<rparr>
   = Some (js ''Hello'', \<lparr> visitedElements = [0, 1], hiddenCache = None \<rparr>)"
  by (simp add: cyclicDocument_facts[unfolded One_nat_def] step_defs string_defs
      getIdRefs_None attribute_defs)

theorem getElementAccessibleName_terminates_witness:
  "(\<exists>name s'. getElementAccessibleName 6 cyclicDocument 1 False initialCaches = Some (name, s'))
   \<and> getElementAccessibleName 6 cyclicDocument 1 False initialCaches
       = Some (js ''Hello'', initialCaches)"
proof -
  have six: "(6::nat) = Suc (Suc (Suc (Suc (Suc (Suc 0)))))" by simp
  have result: "getElementAccessibleName 6 cyclicDocument 1 False initialCaches
       = Some (js ''Hello'', initialCaches)"
    unfolding six
    using cyclicDocument_roles
    by (simp add: getElementAccessibleName_def initialCaches_def cacheGet_def cacheSet_def
        kNamingProhibitedRoles_def cyclicDocument_worker[unfolded One_nat_def]
        normalizeAccessbileName_def replaceNbsp_def string_defs
        del: getElementAccessibleNameInternal.simps)
  have "1 < length cyclicDocument" and "2 * length cyclicDocument + 2 \<le> 6"
    by (simp_all add: cyclicDocument_def)
  from getElementAccessibleName_terminates[OF this, of False initialCaches] result
  show ?thesis by simp
qed

section \<open>Normalisation of the name\<close>

lemma collapse_head: "\<not> isWhiteSpace c \<Longrightarrow> collapseWhiteSpace (c # cs) = c # collapseWhiteSpace cs"
  by (cases cs) auto

lemma noAdjacent_Cons:
  "noAdjacentWhiteSpace (c # cs) = ((cs = [] \<or> \<not> (isWhiteSpace c \<and> isWhiteSpace (hd cs))) \<and> noAdjacentWhiteSpace cs)"
  by (cases cs) auto

lemma dropWhile_head: "dropWhile P xs = [] \<or> \<not> P (hd (dropWhile P xs))"
  by (cases "dropWhile P xs = []") (simp_all add: hd_dropWhile del: dropWhile_eq_Nil_conv)

lemma collapse_hd:
  "xs \<noteq> [] \<Longrightarrow> \<not> isWhiteSpace (hd xs) \<Longrightarrow> collapseWhiteSpace xs \<noteq> [] \<and> hd (collapseWhiteSpace xs) = hd xs"
  by (cases xs) (auto simp: collapse_head)

lemma noAdjacent_collapse: "noAdjacentWhiteSpace (collapseWhiteSpace s)"
proof (induction s rule: collapseWhiteSpace.induct)
  case 1
  then show ?case by simp
next
  case (2 c)
  then show ?case by simp
next
  case (3 c c' cs)
  show ?case
  proof (cases "isWhiteSpace c \<and> isWhiteSpace c'")
    case True
    define rest where "rest = dropWhile isWhiteSpace cs"
    have ih: "noAdjacentWhiteSpace (collapseWhiteSpace rest)" using 3 True by (simp add: rest_def)
    have "rest = [] \<or> \<not> isWhiteSpace (hd rest)"
      unfolding rest_def by (rule dropWhile_head)
    then have "collapseWhiteSpace rest = [] \<or> \<not> isWhiteSpace (hd (collapseWhiteSpace rest))"
      using collapse_hd[of rest] by (cases "rest = []") auto
    then have "noAdjacentWhiteSpace (32 # collapseWhiteSpace rest)"
      using ih by (auto simp: noAdjacent_Cons)
    then show ?thesis using True by (simp add: rest_def)
  next
    case False
    have ih: "noAdjacentWhiteSpace (collapseWhiteSpace (c' # cs))" using 3 False by simp
    have "isWhiteSpace c \<Longrightarrow> hd (collapseWhiteSpace (c' # cs)) = c' \<and> \<not> isWhiteSpace c'"
      using False collapse_head[of c' cs] by auto
    then have "noAdjacentWhiteSpace (c # collapseWhiteSpace (c' # cs))"
      using ih by (auto simp: noAdjacent_Cons)
    moreover have "collapseWhiteSpace (c # c' # cs) = c # collapseWhiteSpace (c' # cs)"
      using False by auto
    ultimately show ?thesis by simp
  qed
qed

lemma noAdjacent_append: "noAdjacentWhiteSpace (xs @ ys) \<Longrightarrow> noAdjacentWhiteSpace xs \<and> noAdjacentWhiteSpace ys"
proof (induction xs rule: noAdjacentWhiteSpace.induct)
  case 1
  then show ?case by simp
next
  case (2 c)
  then show ?case by (cases ys) auto
next
  case (3 c c' cs)
  then show ?case by auto
qed

lemma noAdjacent_dropWhile: "noAdjacentWhiteSpace s \<Longrightarrow> noAdjacentWhiteSpace (dropWhile P s)"
  using noAdjacent_append[of "takeWhile P s" "dropWhile P s"] by simp

lemma split_at_end: "s = rev (dropWhile P (rev s)) @ rev (takeWhile P (rev s))"
proof -
  have "rev s = takeWhile P (rev s) @ dropWhile P (rev s)" by simp
  then have "rev (rev s) = rev (takeWhile P (rev s) @ dropWhile P (rev s))" by (rule arg_cong)
  then show ?thesis by (simp only: rev_rev_ident rev_append)
qed

lemma noAdjacent_dropEnd: "noAdjacentWhiteSpace s \<Longrightarrow> noAdjacentWhiteSpace (rev (dropWhile P (rev s)))"
  using noAdjacent_append[of "rev (dropWhile P (rev s))" "rev (takeWhile P (rev s))"]
    split_at_end[of s P] by simp

lemma noAdjacent_trim: "noAdjacentWhiteSpace s \<Longrightarrow> noAdjacentWhiteSpace (trim s)"
  unfolding trim_def by (intro noAdjacent_dropEnd noAdjacent_dropWhile)

lemma trimmed_trim: "trimmed (trim s)"
proof -
  define m where "m = dropWhile isWhiteSpace s"
  define r where "r = dropWhile isWhiteSpace (rev m)"
  have m: "m = [] \<or> \<not> isWhiteSpace (hd m)" unfolding m_def by (rule dropWhile_head)
  have r: "r = [] \<or> \<not> isWhiteSpace (hd r)" unfolding r_def by (rule dropWhile_head)
  have t: "trim s = rev r" by (simp add: trim_def r_def m_def)
  show ?thesis
  proof (cases "r = []")
    case True
    then show ?thesis by (simp add: t trimmed_def)
  next
    case False
    then have l: "\<not> isWhiteSpace (last (rev r))" using r by (simp add: last_rev)
    have sp: "m = rev r @ rev (takeWhile isWhiteSpace (rev m))"
      unfolding r_def by (rule split_at_end)
    have "rev r \<noteq> []" using False by simp
    then have "hd m = hd (rev r)" using sp hd_append2[of "rev r" "rev (takeWhile isWhiteSpace (rev m))"] by simp
    moreover have "m \<noteq> []" using sp False by auto
    ultimately have "\<not> isWhiteSpace (hd (rev r))" using m by auto
    then show ?thesis using l by (simp add: t trimmed_def)
  qed
qed

lemma set_collapse: "set (collapseWhiteSpace s) \<subseteq> insert 32 (set s)"
proof (induction s rule: collapseWhiteSpace.induct)
  case (3 c c' cs)
  then show ?case using set_dropWhileD[of _ isWhiteSpace cs] by (auto split: if_splits)
qed auto

lemma set_trim: "set (trim s) \<subseteq> set s"
  by (auto simp: trim_def dest!: set_dropWhileD)

lemma nbsp_replaced: "160 \<notin> set (replaceNbsp s)"
  by (auto simp: replaceNbsp_def)

lemma normalized_normalize: "normalized (normalizeAccessbileName s)"
  unfolding normalized_def normalizeAccessbileName_def
  using set_trim[of "collapseWhiteSpace (replaceNbsp (replaceCrLf s))"]
    set_collapse[of "replaceNbsp (replaceCrLf s)"] nbsp_replaced[of "replaceCrLf s"]
  by (auto intro: noAdjacent_trim noAdjacent_collapse trimmed_trim)

lemma normalized_Nil: "normalized []"
  by (simp add: normalized_def trimmed_def)

lemma cacheGet_normalized:
  "cacheGet c e = Some name \<Longrightarrow> list_all normalized (case c of None \<Rightarrow> [] | Some m \<Rightarrow> map snd m)
     \<Longrightarrow> normalized name"
  by (auto simp: cacheGet_def list_all_iff split: option.splits dest!: map_of_SomeD)

lemma cacheSet_normalized:
  "normalized name \<Longrightarrow> list_all normalized (case c of None \<Rightarrow> [] | Some m \<Rightarrow> map snd m)
     \<Longrightarrow> list_all normalized (case cacheSet c e name of None \<Rightarrow> [] | Some m \<Rightarrow> map snd m)"
  by (auto simp: cacheSet_def split: option.splits)

lemma getElementAccessibleName_hit:
  "cacheGet (if hidden then cacheAccessibleNameHidden s else cacheAccessibleName s) e = Some cached
     \<Longrightarrow> getElementAccessibleName depth d e hidden s = Some (cached, s)"
  by (simp add: getElementAccessibleName_def)

lemma getElementAccessibleName_miss:
  assumes "cacheGet (if hidden then cacheAccessibleNameHidden s else cacheAccessibleName s) e = None"
    and "getElementAccessibleName depth d e hidden s = Some (name, s')"
  shows "\<exists>hiddenStates.
      s' = (if hidden
            then s\<lparr> cacheAccessibleNameHidden := cacheSet (cacheAccessibleNameHidden s) e name,
                    cacheIsHidden := hiddenStates \<rparr>
            else s\<lparr> cacheAccessibleName := cacheSet (cacheAccessibleName s) e name,
                    cacheIsHidden := hiddenStates \<rparr>)
      \<and> (name = [] \<or> (\<exists>raw. name = normalizeAccessbileName raw))"
proof -
  let ?c = "if hidden then cacheAccessibleNameHidden s else cacheAccessibleName s"
  let ?r = "if roleOrEmpty d e \<notin> set kNamingProhibitedRoles
            then (case getElementAccessibleNameInternal depth d e (targetOptions hidden)
                         \<lparr> visitedElements = [], hiddenCache = cacheIsHidden s \<rparr> of
                    None \<Rightarrow> None
                  | Some (name, t) \<Rightarrow> Some (normalizeAccessbileName name, hiddenCache t))
            else Some ([], cacheIsHidden s)"
  from assms obtain hs where r: "?r = Some (name, hs)"
    and s': "s' = (if hidden
            then s\<lparr> cacheAccessibleNameHidden := cacheSet ?c e name, cacheIsHidden := hs \<rparr>
            else s\<lparr> cacheAccessibleName := cacheSet ?c e name, cacheIsHidden := hs \<rparr>)"
    by (simp add: getElementAccessibleName_def Let_def split: option.splits prod.splits)
  from r have "name = [] \<or> (\<exists>raw. name = normalizeAccessbileName raw)"
    by (auto split: if_splits option.splits)
  with s' show ?thesis by (cases hidden) auto
qed

lemma getElementAccessibleName_normalized:
  assumes "cachesNormalized s" "getElementAccessibleName depth d e hidden s = Some (name, s')"
  shows "normalized name \<and> cachesNormalized s'"
proof -
  let ?c = "if hidden then cacheAccessibleNameHidden s else cacheAccessibleName s"
  have c: "list_all normalized (case ?c of None \<Rightarrow> [] | Some m \<Rightarrow> map snd m)"
    using assms(1) by (auto simp: cachesNormalized_def cachedNames_def)
  show ?thesis
  proof (cases "cacheGet ?c e")
    case (Some cached)
    from getElementAccessibleName_hit[OF Some, of depth d] assms(2)
    have "name = cached" "s' = s" by simp_all
    then show ?thesis using cacheGet_normalized[OF Some c] assms(1) by simp
  next
    case None
    from getElementAccessibleName_miss[OF None assms(2)] obtain hs
      where s': "s' = (if hidden
            then s\<lparr> cacheAccessibleNameHidden := cacheSet (cacheAccessibleNameHidden s) e name,
                    cacheIsHidden := hs \<rparr>
            else s\<lparr> cacheAccessibleName := cacheSet (cacheAccessibleName s) e name,
                    cacheIsHidden := hs \<rparr>)"
        and nm: "name = [] \<or> (\<exists>raw. name = normalizeAccessbileName raw)"
      by blast
    have n: "normalized name"
      using nm normalized_normalize normalized_Nil by auto
    have "list_all normalized (case cacheSet ?c e name of None \<Rightarrow> [] | Some m \<Rightarrow> map snd m)"
      using n c by (rule cacheSet_normalized)
    then have "cachesNormalized s'"
      using assms(1) s' by (cases hidden) (auto simp: cachesNormalized_def cachedNames_def)
    with n show ?thesis by simp
  qed
qed

text \<open>
  C2. The caches hold normalized names in the initial state, and opening or closing a
  scope keeps it so. In such a state, whenever \<open>getElementAccessibleName\<close> returns a name,
  for any element and either value of the flag, the name holds no two consecutive white
  space characters, no non-breaking space, and neither starts nor ends with white space;
  and the caches of the new state hold normalized names again. A carriage return is white
  space, so one can remain only between two characters that are not white space.
\<close>

theorem getElementAccessibleName_normalized_name:
  "cachesNormalized initialCaches
   \<and> (cachesNormalized s \<longrightarrow> cachesNormalized (beginAriaCaches s) \<and> cachesNormalized (endAriaCaches s))
   \<and> (cachesNormalized s \<and> getElementAccessibleName depth d e hidden s = Some (name, s')
        \<longrightarrow> noAdjacentWhiteSpace name \<and> trimmed name \<and> 160 \<notin> set name \<and> cachesNormalized s')"
proof (intro conjI impI)
  show "cachesNormalized initialCaches"
    by (simp add: cachesNormalized_def cachedNames_def initialCaches_def)
  show "cachesNormalized (beginAriaCaches s)" if "cachesNormalized s"
    using that
    by (auto simp: cachesNormalized_def cachedNames_def beginAriaCaches_def orNewMap_def
        split: option.splits)
  show "cachesNormalized (endAriaCaches s)" if "cachesNormalized s"
    using that by (auto simp: cachesNormalized_def cachedNames_def endAriaCaches_def)
next
  assume a: "cachesNormalized s \<and> getElementAccessibleName depth d e hidden s = Some (name, s')"
  then have "normalized name \<and> cachesNormalized s'"
    by (intro getElementAccessibleName_normalized[of s depth d e hidden]) auto
  then show "noAdjacentWhiteSpace name" "trimmed name" "160 \<notin> set name" "cachesNormalized s'"
    by (simp_all add: normalized_def)
qed

lemma labelDocument_roles:
  "roleOrEmpty labelDocument 0 = js ''button''"
  "roleOrEmpty labelDocument 1 = js ''button''"
  by (simp_all add: labelDocument_def string_defs dom_defs role_defs walk_simps)

lemma labelDocument_elements:
  "length labelDocument = 2"
  "elementAt labelDocument 0 = labelDocument ! 0"
  "elementAt labelDocument 1 = labelDocument ! 1"
  "labelDocument ! 0 = detachedElement\<lparr> tagName := js ''BUTTON'', parentNodeOf := DocumentParent,
        attributes := [(js ''aria-label'', js ''  Save'' @ [13, 10] @ js ''  the'' @ [160] @ js ''file '')],
        computedStyle := Some \<lparr> display = js ''inline-block'', visibilityVisible = True \<rparr> \<rparr>"
  "labelDocument ! 1 = detachedElement\<lparr> tagName := js ''BUTTON'', parentNodeOf := DocumentParent,
        attributes := [(js ''aria-label'', [97, 13, 98])],
        computedStyle := Some \<lparr> display = js ''inline-block'', visibilityVisible = True \<rparr> \<rparr>"
  by (simp_all add: elementAt_def labelDocument_def)

lemma labelDocument_hidden:
  "isElementHiddenForAria labelDocument 0 None = (False, None)"
  "isElementHiddenForAria labelDocument 1 None = (False, None)"
  by (simp_all add: labelDocument_def string_defs dom_defs hidden_defs walk_simps)

lemma labelDocument_references:
  "getAriaLabelledByElements labelDocument 0 = None"
  "getAriaLabelledByElements labelDocument 1 = None"
  by (simp_all add: labelDocument_def dom_defs getAriaLabelledByElements_def js_def)

lemmas labelDocument_facts = labelDocument_roles labelDocument_elements labelDocument_hidden
  labelDocument_references

lemma labelDocument_names:
  "getElementAccessibleName (Suc 0) labelDocument 0 False initialCaches
     = Some (js ''Save the file'', initialCaches)"
  "getElementAccessibleName (Suc 0) labelDocument 1 False initialCaches
     = Some ([97, 13, 98], initialCaches)"
  by (simp_all add: getElementAccessibleName_def initialCaches_def cacheGet_def cacheSet_def
      kNamingProhibitedRoles_def labelDocument_facts[unfolded One_nat_def] step_defs
      normalizeAccessbileName_def replaceNbsp_def string_defs attribute_defs)

theorem getElementAccessibleName_normalized_name_witness:
  "getElementAccessibleName (Suc 0) labelDocument 0 False initialCaches
     = Some (js ''Save the file'', initialCaches)
   \<and> noAdjacentWhiteSpace (js ''Save the file'') \<and> trimmed (js ''Save the file'')
   \<and> 160 \<notin> set (js ''Save the file'')"
  using getElementAccessibleName_normalized_name[of initialCaches "Suc 0" labelDocument 0 False
      "js ''Save the file''" initialCaches]
    labelDocument_names(1)
  by simp

text \<open>The name of a button with \<open>aria-label="a<CR>b"\<close> holds the carriage return.\<close>

theorem getElementAccessibleName_carriage_return_counterexample:
  "getElementAccessibleName (Suc 0) labelDocument 1 False initialCaches
     = Some ([97, 13, 98], initialCaches)
   \<and> 13 \<in> set [97, 13, 98 :: nat]"
  using labelDocument_names(2) by simp

section \<open>Pass scopes and their caches\<close>

lemma getElementAccessibleName_hiddenStates:
  assumes "e < length d" "2 * length d + 2 \<le> depth"
    "getElementAccessibleName depth d e hidden s = Some (name, s')"
  shows "(cacheIsHidden s' = None) = (cacheIsHidden s = None)"
proof -
  let ?c = "if hidden then cacheAccessibleNameHidden s else cacheAccessibleName s"
  let ?t = "\<lparr> visitedElements = [], hiddenCache = cacheIsHidden s \<rparr>"
  have "card ({..<length d} - set (visitedElements ?t)) = length d" by simp
  then have r: "returns d (set (visitedElements ?t)) ?t
     (getElementAccessibleNameInternal depth d e (targetOptions hidden) ?t)"
    using assms(1,2) by (intro getElementAccessibleNameInternal_returns) auto
  show ?thesis
  proof (cases "cacheGet ?c e")
    case (Some cached)
    from getElementAccessibleName_hit[OF Some, of depth d] assms(3) show ?thesis by simp
  next
    case None
    show ?thesis
      using r assms(3) None
      by (cases hidden)
         (auto simp: getElementAccessibleName_def Let_def returns_def extends_def
           split: option.splits if_splits)
  qed
qed

lemma getElementAccessibleName_frame:
  assumes "getElementAccessibleName depth d e hidden s = Some (name, s')"
  shows "cachesCounter s' = cachesCounter s
    \<and> (cacheAccessibleName s' = None) = (cacheAccessibleName s = None)
    \<and> (cacheAccessibleNameHidden s' = None) = (cacheAccessibleNameHidden s = None)"
proof (cases "cacheGet (if hidden then cacheAccessibleNameHidden s else cacheAccessibleName s) e")
  case (Some cached)
  from getElementAccessibleName_hit[OF Some, of depth d] assms show ?thesis by simp
next
  case None
  from getElementAccessibleName_miss[OF None assms] show ?thesis
    by (cases hidden) (auto simp: cacheSet_def split: option.splits)
qed

lemma getElementAccessibleName_returns:
  assumes "e < length d" "2 * length d + 2 \<le> depth"
  shows "\<exists>name s'. getElementAccessibleName depth d e hidden s = Some (name, s')"
proof -
  let ?t = "\<lparr> visitedElements = [], hiddenCache = cacheIsHidden s \<rparr>"
  have "card ({..<length d} - set (visitedElements ?t)) = length d" by simp
  then have "returns d (set (visitedElements ?t)) ?t
     (getElementAccessibleNameInternal depth d e (targetOptions hidden) ?t)"
    using assms by (intro getElementAccessibleNameInternal_returns) auto
  then obtain name t'
    where "getElementAccessibleNameInternal depth d e (targetOptions hidden) ?t = Some (name, t')"
    by (auto simp: returns_def split: option.splits)
  then show ?thesis
    by (cases hidden) (auto simp: getElementAccessibleName_def Let_def split: option.splits)
qed

lemma runOperation_invariant:
  assumes "scopeInvariant s" "wellBracketed (cachesCounter s) (operation # operations)"
  shows "\<exists>s'. runOperation operation s = Some s' \<and> scopeInvariant s'
           \<and> wellBracketed (cachesCounter s') operations"
proof (cases operation)
  case BeginAriaCaches
  then show ?thesis using assms
    by (auto simp: scopeInvariant_def cachesDefined_def cachesUndefined_def beginAriaCaches_def
        orNewMap_def split: option.splits if_splits)
next
  case EndAriaCaches
  then show ?thesis using assms
    by (auto simp: scopeInvariant_def cachesDefined_def cachesUndefined_def endAriaCaches_def
        split: if_splits)
next
  case (AccessibleName d e hidden)
  with assms have e: "e < length d" and w: "wellBracketed (cachesCounter s) operations"
    by auto
  from getElementAccessibleName_returns[OF e order_refl, of hidden s]
  obtain name s' where r: "getElementAccessibleName (2 * length d + 2) d e hidden s = Some (name, s')"
    by blast
  from getElementAccessibleName_frame[OF r] getElementAccessibleName_hiddenStates[OF e _ r] assms(1) w
  have "scopeInvariant s' \<and> wellBracketed (cachesCounter s') operations"
    by (auto simp: scopeInvariant_def cachesDefined_def cachesUndefined_def split: if_splits)
  then show ?thesis using r AccessibleName by simp
next
  case (HiddenForAria d e)
  then show ?thesis using assms hidden_cache_None(1)[of d e "cacheIsHidden s"]
    by (auto simp: scopeInvariant_def cachesDefined_def cachesUndefined_def split: if_splits)
qed

lemma runPass_invariant:
  "scopeInvariant s \<Longrightarrow> wellBracketed (cachesCounter s) operations
     \<Longrightarrow> \<exists>s'. runPass operations s = Some s' \<and> scopeInvariant s'"
proof (induction operations arbitrary: s)
  case Nil
  then show ?case by simp
next
  case (Cons operation operations)
  from runOperation_invariant[OF Cons.prems] obtain s1
    where s1: "runOperation operation s = Some s1" "scopeInvariant s1"
      "wellBracketed (cachesCounter s1) operations"
    by blast
  from Cons.IH[OF s1(2,3)] s1(1) show ?case by simp
qed

lemma scopeInvariant_initial: "scopeInvariant initialCaches"
  by (simp add: scopeInvariant_def cachesUndefined_def initialCaches_def)

lemma scopeInvariant_scopes:
  assumes "scopeInvariant s"
  shows "0 \<le> cachesCounter s
    \<and> (cachesCounter s = 0 \<longrightarrow> s = initialCaches
          \<and> beginAriaCaches s = \<lparr> cacheAccessibleName = Some [], cacheAccessibleNameHidden = Some [],
                                  cacheIsHidden = Some [], cachesCounter = 1 \<rparr>)
    \<and> (0 < cachesCounter s \<longrightarrow> cachesDefined s
          \<and> beginAriaCaches s = s\<lparr> cachesCounter := cachesCounter s + 1 \<rparr>)
    \<and> (cachesCounter s = 1 \<longrightarrow> endAriaCaches s = initialCaches)
    \<and> (1 < cachesCounter s \<longrightarrow> endAriaCaches s = s\<lparr> cachesCounter := cachesCounter s - 1 \<rparr>)"
  using assms
  by (cases s)
     (auto simp: scopeInvariant_def cachesDefined_def cachesUndefined_def initialCaches_def
       beginAriaCaches_def endAriaCaches_def orNewMap_def split: if_splits)

text \<open>
  C9. Every well-bracketed sequence of calls, from the initial state, runs to a state whose
  counter of open scopes is not negative. When the counter is zero the state is the
  initial one, with no cache at all, whatever was computed in the scopes before, and
  the next \<open>beginAriaCaches\<close> starts from three empty caches. When a scope is open the
  three caches exist, and a nested \<open>beginAriaCaches\<close> only counts: it keeps the caches and
  their contents. The \<open>endAriaCaches\<close> that closes the last open scope gives the initial
  state; one that closes a nested scope only counts.
\<close>

theorem caches_cleared_between_scopes:
  assumes "wellBracketed 0 operations"
  shows "\<exists>s. runPass operations initialCaches = Some s
    \<and> 0 \<le> cachesCounter s
    \<and> (cachesCounter s = 0 \<longrightarrow> s = initialCaches
          \<and> beginAriaCaches s = \<lparr> cacheAccessibleName = Some [], cacheAccessibleNameHidden = Some [],
                                  cacheIsHidden = Some [], cachesCounter = 1 \<rparr>)
    \<and> (0 < cachesCounter s \<longrightarrow> cachesDefined s
          \<and> beginAriaCaches s = s\<lparr> cachesCounter := cachesCounter s + 1 \<rparr>)
    \<and> (cachesCounter s = 1 \<longrightarrow> endAriaCaches s = initialCaches)
    \<and> (1 < cachesCounter s \<longrightarrow> endAriaCaches s = s\<lparr> cachesCounter := cachesCounter s - 1 \<rparr>)"
proof -
  have "wellBracketed (cachesCounter initialCaches) operations"
    using assms by (simp add: initialCaches_def)
  from runPass_invariant[OF scopeInvariant_initial this]
  obtain s where s: "runPass operations initialCaches = Some s" "scopeInvariant s" by blast
  from scopeInvariant_scopes[OF s(2)] s(1) show ?thesis by blast
qed

section \<open>The caches of names\<close>

lemma getElementAccessibleName_keeps:
  assumes stored: "cacheGet (if hidden then cacheAccessibleNameHidden s else cacheAccessibleName s) e = Some name"
    and other: "getElementAccessibleName depth1 d1 e1 hidden1 s = Some (name1, s1)"
  shows "cacheGet (if hidden then cacheAccessibleNameHidden s1 else cacheAccessibleName s1) e = Some name
    \<and> cachesCounter s1 = cachesCounter s"
proof (cases "cacheGet (if hidden1 then cacheAccessibleNameHidden s else cacheAccessibleName s) e1")
  case (Some cached)
  from getElementAccessibleName_hit[OF Some, of depth1 d1] other stored show ?thesis
    by (cases hidden) auto
next
  case None
  from getElementAccessibleName_miss[OF None other] stored None show ?thesis
    by (cases hidden; cases hidden1) (auto simp: cacheSet_def cacheGet_def split: option.splits if_splits)
qed

lemma runOperation_keeps:
  assumes stored: "cacheGet (if hidden then cacheAccessibleNameHidden s else cacheAccessibleName s) e = Some name"
    and "scopeStaysOpen (cachesCounter s) (operation # operations)"
    and "runOperation operation s = Some s1"
  shows "cacheGet (if hidden then cacheAccessibleNameHidden s1 else cacheAccessibleName s1) e = Some name
    \<and> scopeStaysOpen (cachesCounter s1) operations"
proof (cases operation)
  case BeginAriaCaches
  then show ?thesis using assms
    by (cases hidden) (auto simp: beginAriaCaches_def orNewMap_def cacheGet_def split: option.splits)
next
  case EndAriaCaches
  then show ?thesis using assms
    by (cases hidden) (auto simp: endAriaCaches_def)
next
  case (AccessibleName d1 e1 hidden1)
  with assms(3) obtain name1
    where "getElementAccessibleName (2 * length d1 + 2) d1 e1 hidden1 s = Some (name1, s1)"
    by auto
  from getElementAccessibleName_keeps[OF stored this] assms(2) AccessibleName
  show ?thesis by simp
next
  case (HiddenForAria d1 e1)
  then show ?thesis using assms by (cases hidden) auto
qed

lemma runPass_keeps:
  "cacheGet (if hidden then cacheAccessibleNameHidden s else cacheAccessibleName s) e = Some name
     \<Longrightarrow> scopeStaysOpen (cachesCounter s) operations
     \<Longrightarrow> runPass operations s = Some s2
     \<Longrightarrow> cacheGet (if hidden then cacheAccessibleNameHidden s2 else cacheAccessibleName s2) e = Some name"
proof (induction operations arbitrary: s)
  case Nil
  then show ?case by (cases hidden) auto
next
  case (Cons operation operations)
  from Cons.prems(3) obtain s1 where s1: "runOperation operation s = Some s1"
    and rest: "runPass operations s1 = Some s2"
    by (auto split: option.splits)
  note kept = runOperation_keeps[OF Cons.prems(1,2) s1]
  show ?case by (rule Cons.IH[OF kept[THEN conjunct1] kept[THEN conjunct2] rest])
qed

text \<open>
  C3. Inside a scope, where the cache for the flag exists, a call of
  \<open>getElementAccessibleName\<close> that returns a name leaves a state in which the same call
  returns the same name and changes nothing, at whatever depth. So it does after another
  call of \<open>getElementAccessibleName\<close> for any element and flag in between, and after any
  sequence of calls of the exported functions in between that leaves the scope open.
\<close>

theorem getElementAccessibleName_idempotent:
  assumes "(if hidden then cacheAccessibleNameHidden s else cacheAccessibleName s) \<noteq> None"
    and "getElementAccessibleName depth d e hidden s = Some (name, s')"
  shows "getElementAccessibleName depth' d e hidden s' = Some (name, s')
    \<and> (getElementAccessibleName depth1 d e1 hidden1 s' = Some (name1, s1)
          \<longrightarrow> getElementAccessibleName depth2 d e hidden s1 = Some (name, s1))
    \<and> (scopeStaysOpen (cachesCounter s') operations \<and> runPass operations s' = Some s2
          \<longrightarrow> getElementAccessibleName depth3 d e hidden s2 = Some (name, s2))"
proof -
  let ?cache = "\<lambda>s. if hidden then cacheAccessibleNameHidden s else cacheAccessibleName s"
  have stored: "cacheGet (?cache s') e = Some name"
  proof (cases "cacheGet (?cache s) e")
    case (Some cached)
    from getElementAccessibleName_hit[OF Some, of depth d] assms(2) Some show ?thesis
      by (cases hidden) auto
  next
    case None
    from getElementAccessibleName_miss[OF None assms(2)] assms(1) show ?thesis
      by (cases hidden) (auto simp: cacheSet_def cacheGet_def split: option.splits)
  qed
  have kept: "cacheGet (?cache s1) e = Some name"
    if "getElementAccessibleName depth1 d e1 hidden1 s' = Some (name1, s1)"
    using getElementAccessibleName_keeps[OF stored that] by simp
  have pass: "cacheGet (?cache s2) e = Some name"
    if "scopeStaysOpen (cachesCounter s') operations" "runPass operations s' = Some s2"
    using runPass_keeps[OF stored that] .
  show ?thesis
    using getElementAccessibleName_hit[OF stored] getElementAccessibleName_hit[OF kept]
      getElementAccessibleName_hit[OF pass]
    by simp
qed

text \<open>
  C10. A call with the flag set neither reads nor writes the cache of the names computed
  without the flag: with any other contents of that cache the call gives the same name
  and the same state, but for those contents. The same holds for a call without the flag
  and the cache of the names computed with the flag.
\<close>

theorem getElementAccessibleName_separate_caches:
  "getElementAccessibleName depth d e True (s\<lparr> cacheAccessibleName := other \<rparr>)
     = map_option (\<lambda>(name, s'). (name, s'\<lparr> cacheAccessibleName := other \<rparr>))
         (getElementAccessibleName depth d e True s)
   \<and> getElementAccessibleName depth d e False (s\<lparr> cacheAccessibleNameHidden := other \<rparr>)
     = map_option (\<lambda>(name, s'). (name, s'\<lparr> cacheAccessibleNameHidden := other \<rparr>))
         (getElementAccessibleName depth d e False s)"
  by (auto simp: getElementAccessibleName_def Let_def split: option.splits)

section \<open>The name of a table\<close>


















section \<open>Evaluation of the scopes\<close>

lemma labelDocument_worker:
  "getElementAccessibleNameInternal (Suc n) labelDocument 0 (targetOptions True)
     \<lparr> visitedElements = [], hiddenCache = h \<rparr>
   = Some (js ''  Save'' @ [13, 10] @ js ''  the'' @ [160] @ js ''file '',
           \<lparr> visitedElements = [0], hiddenCache = h \<rparr>)"
  by (simp add: labelDocument_facts[unfolded One_nat_def] step_defs string_defs attribute_defs)

lemma labelDocument_name:
  "normalizeAccessbileName (js ''  Save'' @ [13, 10] @ js ''  the'' @ [160] @ js ''file '')
     = js ''Save the file''"
  by (simp add: normalizeAccessbileName_def replaceNbsp_def string_defs)

lemma labelDocument_scoped:
  "getElementAccessibleName (Suc n) labelDocument 0 True
     \<lparr> cacheAccessibleName = Some [], cacheAccessibleNameHidden = Some [],
       cacheIsHidden = Some [], cachesCounter = 1 \<rparr>
   = Some (js ''Save the file'',
       \<lparr> cacheAccessibleName = Some [], cacheAccessibleNameHidden = Some [(0, js ''Save the file'')],
         cacheIsHidden = Some [], cachesCounter = 1 \<rparr>)"
proof -
  have role: "roleOrEmpty labelDocument 0 \<notin> set kNamingProhibitedRoles"
    by (simp add: labelDocument_roles kNamingProhibitedRoles_def js_def)
  show ?thesis
    using role labelDocument_name
    by (simp add: getElementAccessibleName_def cacheGet_def cacheSet_def
        labelDocument_worker
        del: getElementAccessibleNameInternal.simps)
qed

lemma begin_initial:
  "beginAriaCaches initialCaches
     = \<lparr> cacheAccessibleName = Some [], cacheAccessibleNameHidden = Some [],
         cacheIsHidden = Some [], cachesCounter = 1 \<rparr>"
  by (simp add: beginAriaCaches_def initialCaches_def orNewMap_def)

text \<open>In a scope, the second call for the first button of the label document finds the
  name in the cache, also after a nested scope was opened and closed.\<close>

theorem getElementAccessibleName_idempotent_witness:
  "getElementAccessibleName (Suc 0) labelDocument 0 True (beginAriaCaches initialCaches)
     = Some (js ''Save the file'',
         \<lparr> cacheAccessibleName = Some [], cacheAccessibleNameHidden = Some [(0, js ''Save the file'')],
           cacheIsHidden = Some [], cachesCounter = 1 \<rparr>)
   \<and> runPass [BeginAriaCaches, EndAriaCaches]
         \<lparr> cacheAccessibleName = Some [], cacheAccessibleNameHidden = Some [(0, js ''Save the file'')],
           cacheIsHidden = Some [], cachesCounter = 1 \<rparr>
       = Some \<lparr> cacheAccessibleName = Some [], cacheAccessibleNameHidden = Some [(0, js ''Save the file'')],
           cacheIsHidden = Some [], cachesCounter = 1 \<rparr>
   \<and> getElementAccessibleName (Suc 0) labelDocument 0 True
       \<lparr> cacheAccessibleName = Some [], cacheAccessibleNameHidden = Some [(0, js ''Save the file'')],
         cacheIsHidden = Some [], cachesCounter = 1 \<rparr>
     = Some (js ''Save the file'',
         \<lparr> cacheAccessibleName = Some [], cacheAccessibleNameHidden = Some [(0, js ''Save the file'')],
           cacheIsHidden = Some [], cachesCounter = 1 \<rparr>)"
proof -
  let ?s = "beginAriaCaches initialCaches"
  let ?s' = "\<lparr> cacheAccessibleName = Some [], cacheAccessibleNameHidden = Some [(0, js ''Save the file'')],
           cacheIsHidden = Some [], cachesCounter = 1 \<rparr>"
  have first: "getElementAccessibleName (Suc 0) labelDocument 0 True ?s = Some (js ''Save the file'', ?s')"
    unfolding begin_initial by (rule labelDocument_scoped)
  have scope: "(if True then cacheAccessibleNameHidden ?s else cacheAccessibleName ?s) \<noteq> None"
    by (simp add: begin_initial)
  have pass: "runPass [BeginAriaCaches, EndAriaCaches] ?s' = Some ?s'"
    by (simp add: beginAriaCaches_def endAriaCaches_def orNewMap_def)
  have "open": "scopeStaysOpen (cachesCounter ?s') [BeginAriaCaches, EndAriaCaches]"
    by simp
  from getElementAccessibleName_idempotent[OF scope first, of "Suc 0" _ _ _ _ _ _
      "[BeginAriaCaches, EndAriaCaches]" ?s' "Suc 0"] first pass "open"
  show ?thesis by simp
qed

text \<open>A scope in which one name is computed: the name is in the cache before the scope is
  closed, and closing the scope gives the initial state.\<close>

theorem caches_cleared_between_scopes_witness:
  "wellBracketed 0 [BeginAriaCaches, AccessibleName labelDocument 0 True, EndAriaCaches]
   \<and> runPass [BeginAriaCaches, AccessibleName labelDocument 0 True] initialCaches
       = Some \<lparr> cacheAccessibleName = Some [],
                cacheAccessibleNameHidden = Some [(0, js ''Save the file'')],
                cacheIsHidden = Some [], cachesCounter = 1 \<rparr>
   \<and> runPass [BeginAriaCaches, AccessibleName labelDocument 0 True, EndAriaCaches] initialCaches
       = Some initialCaches"
proof -
  let ?pass = "[BeginAriaCaches, AccessibleName labelDocument 0 True, EndAriaCaches]"
  have depth: "2 * length labelDocument + 2 = Suc 5"
    by (simp add: labelDocument_elements)
  have bracketed: "wellBracketed 0 ?pass"
    by (simp add: labelDocument_elements)
  have call: "getElementAccessibleName (2 * length labelDocument + 2) labelDocument 0 True
       \<lparr> cacheAccessibleName = Some [], cacheAccessibleNameHidden = Some [],
         cacheIsHidden = Some [], cachesCounter = 1 \<rparr>
     = Some (js ''Save the file'',
         \<lparr> cacheAccessibleName = Some [], cacheAccessibleNameHidden = Some [(0, js ''Save the file'')],
           cacheIsHidden = Some [], cachesCounter = 1 \<rparr>)"
    unfolding depth by (rule labelDocument_scoped)
  have close: "endAriaCaches \<lparr> cacheAccessibleName = Some [],
         cacheAccessibleNameHidden = Some [(0, js ''Save the file'')],
         cacheIsHidden = Some [], cachesCounter = 1 \<rparr> = initialCaches"
    by (simp add: endAriaCaches_def initialCaches_def)
  have scope: "runPass [BeginAriaCaches, AccessibleName labelDocument 0 True] initialCaches
       = Some \<lparr> cacheAccessibleName = Some [],
                cacheAccessibleNameHidden = Some [(0, js ''Save the file'')],
                cacheIsHidden = Some [], cachesCounter = 1 \<rparr>"
    by (simp only: runPass.simps runOperation.simps begin_initial call option.simps
        option.map snd_conv)
  have closed: "runPass ?pass initialCaches = Some initialCaches"
    by (simp only: runPass.simps runOperation.simps begin_initial call option.simps
        option.map snd_conv close)
  from caches_cleared_between_scopes[OF bracketed] bracketed scope closed
  show ?thesis by simp
qed

lemma hiddenDocument_roles:
  "roleOrEmpty hiddenDocument 0 = js ''button''"
  by (simp_all add: hiddenDocument_def string_defs dom_defs role_defs walk_simps)

lemma hiddenDocument_elements:
  "length hiddenDocument = 1"
  "elementAt hiddenDocument 0 = hiddenDocument ! 0"
  "hiddenDocument ! 0 = detachedElement\<lparr> tagName := js ''BUTTON'', parentNodeOf := DocumentParent,
        attributes := [(js ''aria-hidden'', js ''true''), (js ''aria-label'', js ''Close'')],
        computedStyle := Some \<lparr> display = js ''inline-block'', visibilityVisible = True \<rparr> \<rparr>"
  by (simp_all add: elementAt_def hiddenDocument_def)

lemma hiddenDocument_hidden:
  "isElementHiddenForAria hiddenDocument 0 (Some []) = (True, Some [(0, True)])"
  by (simp_all add: hiddenDocument_def string_defs dom_defs hidden_defs walk_simps)

lemma hiddenDocument_references:
  "getAriaLabelledByElements hiddenDocument 0 = None"
  by (simp_all add: hiddenDocument_def dom_defs getAriaLabelledByElements_def js_def)

lemmas hiddenDocument_facts = hiddenDocument_roles hiddenDocument_elements
  hiddenDocument_hidden hiddenDocument_references

lemma hiddenDocument_names:
  "getElementAccessibleName (Suc 0) hiddenDocument 0 False
     \<lparr> cacheAccessibleName = Some [], cacheAccessibleNameHidden = Some [],
       cacheIsHidden = Some [], cachesCounter = 1 \<rparr>
   = Some ([], \<lparr> cacheAccessibleName = Some [(0, [])], cacheAccessibleNameHidden = Some [],
                 cacheIsHidden = Some [(0, True)], cachesCounter = 1 \<rparr>)"
  "getElementAccessibleName (Suc 0) hiddenDocument 0 True
     \<lparr> cacheAccessibleName = Some [], cacheAccessibleNameHidden = Some [],
       cacheIsHidden = Some [(0, True)], cachesCounter = 1 \<rparr>
   = Some (js ''Close'', \<lparr> cacheAccessibleName = Some [],
                 cacheAccessibleNameHidden = Some [(0, js ''Close'')],
                 cacheIsHidden = Some [(0, True)], cachesCounter = 1 \<rparr>)"
  by (simp_all add: getElementAccessibleName_def cacheGet_def cacheSet_def
      kNamingProhibitedRoles_def hiddenDocument_facts[unfolded One_nat_def] step_defs
      normalizeAccessbileName_def replaceNbsp_def string_defs attribute_defs)

text \<open>The hidden button has the empty name without the flag; the call with the flag, in
  the state that holds this empty name, computes the name \<open>Close\<close>.\<close>

theorem getElementAccessibleName_separate_caches_witness:
  "getElementAccessibleName (Suc 0) hiddenDocument 0 False (beginAriaCaches initialCaches)
     = Some ([], \<lparr> cacheAccessibleName = Some [(0, [])], cacheAccessibleNameHidden = Some [],
                   cacheIsHidden = Some [(0, True)], cachesCounter = 1 \<rparr>)
   \<and> getElementAccessibleName (Suc 0) hiddenDocument 0 True
       \<lparr> cacheAccessibleName = Some [(0, [])], cacheAccessibleNameHidden = Some [],
         cacheIsHidden = Some [(0, True)], cachesCounter = 1 \<rparr>
     = Some (js ''Close'', \<lparr> cacheAccessibleName = Some [(0, [])],
                 cacheAccessibleNameHidden = Some [(0, js ''Close'')],
                 cacheIsHidden = Some [(0, True)], cachesCounter = 1 \<rparr>)"
  using getElementAccessibleName_separate_caches[where depth = "Suc 0"
      and d = hiddenDocument and e = 0 and other = "Some [(0, [])]"
      and s = "\<lparr> cacheAccessibleName = Some [], cacheAccessibleNameHidden = Some [],
         cacheIsHidden = Some [(0, True)], cachesCounter = 1 \<rparr>"]
    hiddenDocument_names
  by (simp add: begin_initial del: getElementAccessibleNameInternal.simps)

end
